theory Spec2Isabelle
  imports Complex_Main
begin

section \<open>Numbers, errors and the terrain\<close>

text \<open>
  The program computes with Python floats and NumPy float64 arrays. They are modelled by
  the real numbers: every formula of the source is kept, rounding is not. The one property
  below that rounding decides, the decay of the horizontal velocity, is settled on a second
  model of the two velocity lines in which every float64 operation is rounded
  (\<open>velocity_step\<close>). Python integers (pixel rows, grid indices, milliseconds) are
  \<^typ>\<open>int\<close>.
\<close>

datatype error = ZeroDivisionError

text \<open>\<^verbatim>\<open>int(x)\<close> on a float: truncation towards zero.\<close>

definition py_int :: "real \<Rightarrow> int" where
  "py_int r = (if 0 \<le> r then \<lfloor>r\<rfloor> else \<lceil>r\<rceil>)"

type_synonym color = "nat \<times> nat \<times> nat"

text \<open>
  The module-level arrays \<^verbatim>\<open>base_height_map\<close> and \<^verbatim>\<open>base_color_map\<close> (loaded from two
  images) and the constant \<^verbatim>\<open>INFINITE_MAP\<close> are the fields of one record.
  \<open>base_height_map W x y\<close> is \<^verbatim>\<open>base_height_map[x, y][0]\<close>; \<open>map_width\<close> and
  \<open>map_height\<close> are \<^verbatim>\<open>shape[0]\<close> and \<^verbatim>\<open>shape[1]\<close>. The source sets
  \<^verbatim>\<open>INFINITE_MAP = False\<close>; both branches of every test on it are modelled.
\<close>

record world =
  base_height_map :: "int \<Rightarrow> int \<Rightarrow> int"
  base_color_map :: "int \<Rightarrow> int \<Rightarrow> color"
  map_width :: int
  map_height :: int
  INFINITE_MAP :: bool

definition BREATH_AMPLITUDE :: real where "BREATH_AMPLITUDE = 2"
definition BREATH_FREQUENCY :: real where "BREATH_FREQUENCY = 0.002"
definition ACCELERATION :: real where "ACCELERATION = 2"
definition DAMPING :: real where "DAMPING = 0.8"
definition PITCH_ACCEL :: real where "PITCH_ACCEL = 0.5"
definition PITCH_DAMPING :: real where "PITCH_DAMPING = 0.9"
definition PITCH_MIN :: real where "PITCH_MIN = - 1000"
definition PITCH_MAX :: real where "PITCH_MAX = 1000"
definition DRAW_DISTANCE :: int where "DRAW_DISTANCE = 5000"
definition WORLD_SCALE :: real where "WORLD_SCALE = 1"
definition WORLD_SCALE_MIN :: real where "WORLD_SCALE_MIN = 1"
definition WORLD_SCALE_MAX :: real where "WORLD_SCALE_MAX = 5"
definition WORLD_SCALE_STEP :: real where "WORLD_SCALE_STEP = 0.1"

text \<open>\<^verbatim>\<open>optimized_collision_check(pos, height_map)\<close>: the terrain height under a position,
  with the boundary policy applied to the truncated coordinates.\<close>

definition optimized_collision_check :: "world \<Rightarrow> real \<times> real \<Rightarrow> int" where
  "optimized_collision_check W p =
     (if INFINITE_MAP W then
        base_height_map W (py_int (fst p) mod map_width W) (py_int (snd p) mod map_height W)
      else
        (let x = py_int (fst p);
             y = py_int (snd p);
             x = (if x < 0 then 0 else if x \<ge> map_width W then map_width W - 1 else x);
             y = (if y < 0 then 0 else if y \<ge> map_height W then map_height W - 1 else y)
         in base_height_map W x y))"

section \<open>The player\<close>

record player =
  pos :: "real \<times> real"
  height :: real
  vel :: "real \<times> real"
  v_vel :: real
  pitch :: real
  pitch_vel :: real
  flying :: bool
  last_space_press :: int
  space_pressed_prev :: bool
  angle :: real
  angle_vel :: real
  is_on_ground :: bool
  velocity_y :: real
  gravity :: real
  jump_force :: real

definition create_player :: "world \<Rightarrow> player" where
  "create_player W =
     (let initial_pos = (real_of_int (map_width W div 2), real_of_int (map_height W div 2));
          terrain_height = optimized_collision_check W initial_pos
      in \<lparr> pos = initial_pos,
           height = real_of_int (terrain_height + 40),
           vel = (0, 0),
           v_vel = 0,
           pitch = 0,
           pitch_vel = 0,
           flying = False,
           last_space_press = 0,
           space_pressed_prev = False,
           angle = pi / 4,
           angle_vel = 0.006,
           is_on_ground = True,
           velocity_y = 0,
           gravity = 0.9,
           jump_force = 12 \<rparr>)"

text \<open>
  What \<^verbatim>\<open>update_player\<close> reads from pygame in one tick: the keys held
  (\<^verbatim>\<open>pg.key.get_pressed()\<close>), the first mouse button, the mouse motion and the clock
  (\<^verbatim>\<open>pg.time.get_ticks()\<close>, milliseconds since start). The same record carries what
  \<^verbatim>\<open>update_app\<close> reads: the tuning keys and its own reading of the clock, \<open>render_time\<close>.
\<close>

record input =
  K_w :: bool
  K_s :: bool
  K_a :: bool
  K_d :: bool
  K_SPACE :: bool
  K_LSHIFT :: bool
  K_RSHIFT :: bool
  K_UP :: bool
  K_DOWN :: bool
  K_PAGEUP :: bool
  K_PAGEDOWN :: bool
  K_EQUALS :: bool
  K_KP_PLUS :: bool
  K_MINUS :: bool
  K_KP_MINUS :: bool
  mouse_button0 :: bool
  mouse_rel :: "int \<times> int"
  current_time :: int
  render_time :: int

subsection \<open>The blocks of \<open>update_player\<close>, in source order\<close>

definition mouse_look :: "input \<Rightarrow> real \<Rightarrow> player \<Rightarrow> player" where
  "mouse_look i dt p =
     (let a = angle p + real_of_int (fst (mouse_rel i)) * angle_vel p * dt * 60;
          pt = pitch p - real_of_int (snd (mouse_rel i)) * 0.7 * dt * 60
      in p\<lparr> angle := a, pitch := max (min pt PITCH_MAX) PITCH_MIN \<rparr>)"

definition input_vec :: "input \<Rightarrow> real \<times> real" where
  "input_vec i =
     (let v1 = (if K_w i \<or> mouse_button0 i then 1 else 0) - (if K_s i then 1 else 0);
          v0 = (if K_d i then 1 else 0) - (if K_a i then 1 else 0);
          n = sqrt (v0 * v0 + v1 * v1)
      in if n \<noteq> 0 then (v0 / n, v1 / n) else (v0, v1))"

definition horizontal_movement :: "input \<Rightarrow> real \<Rightarrow> real \<Rightarrow> player \<Rightarrow> player" where
  "horizontal_movement i dt scale_factor p =
     (let iv = input_vec i;
          v0 = (fst (vel p) + fst iv * ACCELERATION * dt * 60 * scale_factor) * (DAMPING powr (dt * 60));
          v1 = (snd (vel p) + snd iv * ACCELERATION * dt * 60 * scale_factor) * (DAMPING powr (dt * 60));
          move_dir = (cos (angle p) * v1 - sin (angle p) * v0,
                      sin (angle p) * v1 + cos (angle p) * v0)
      in p\<lparr> vel := (v0, v1),
             pos := (fst (pos p) + fst move_dir * dt * 60 * scale_factor,
                     snd (pos p) + snd move_dir * dt * 60 * scale_factor) \<rparr>)"

definition clamp_position :: "world \<Rightarrow> player \<Rightarrow> player" where
  "clamp_position W p =
     (if \<not> INFINITE_MAP W then
        (let p1 = (if fst (pos p) < 0
                   then p\<lparr> pos := (0, snd (pos p)), vel := (max 0 (fst (vel p)), snd (vel p)) \<rparr>
                   else if fst (pos p) \<ge> real_of_int (map_width W)
                   then p\<lparr> pos := (real_of_int (map_width W - 1), snd (pos p)),
                           vel := (min 0 (fst (vel p)), snd (vel p)) \<rparr>
                   else p)
         in if snd (pos p1) < 0
            then p1\<lparr> pos := (fst (pos p1), 0), vel := (fst (vel p1), max 0 (snd (vel p1))) \<rparr>
            else if snd (pos p1) \<ge> real_of_int (map_height W)
            then p1\<lparr> pos := (fst (pos p1), real_of_int (map_height W - 1)),
                      vel := (fst (vel p1), min 0 (snd (vel p1))) \<rparr>
            else p1)
      else p)"

definition vertical_movement :: "input \<Rightarrow> real \<Rightarrow> real \<Rightarrow> player \<Rightarrow> player" where
  "vertical_movement i dt scale_factor p =
     (let vertical_input = (if K_SPACE i then 1 else 0) - (if K_LSHIFT i \<or> K_RSHIFT i then 1 else 0);
          vv = (v_vel p + vertical_input * ACCELERATION * dt * 60 * scale_factor) * (DAMPING powr (dt * 60))
      in p\<lparr> v_vel := vv, height := height p + vv * dt * 60 * scale_factor \<rparr>)"

text \<open>The lowest eye height allowed at the player's position: terrain plus 40, both scaled.\<close>

definition floor_level :: "world \<Rightarrow> real \<Rightarrow> player \<Rightarrow> real" where
  "floor_level W ws p =
     real_of_int (optimized_collision_check W (pos p)) * ws + 40 * ws"

definition terrain_collision :: "world \<Rightarrow> real \<Rightarrow> player \<Rightarrow> player" where
  "terrain_collision W ws p =
     (if height p < floor_level W ws p
      then p\<lparr> height := floor_level W ws p, v_vel := 0 \<rparr>
      else p)"

definition pitch_update :: "input \<Rightarrow> real \<Rightarrow> player \<Rightarrow> player" where
  "pitch_update i dt p =
     (let pitch_input = (if K_DOWN i then 1 else 0) - (if K_UP i then 1 else 0);
          pv = (pitch_vel p + pitch_input * PITCH_ACCEL * dt * 60) * (PITCH_DAMPING powr (dt * 60));
          pt = pitch p + pv * dt * 60
      in p\<lparr> pitch_vel := pv, pitch := max (min pt PITCH_MAX) PITCH_MIN \<rparr>)"

definition flying_toggle :: "input \<Rightarrow> real \<Rightarrow> player \<Rightarrow> player" where
  "flying_toggle i scale_factor p =
     (if \<not> flying p then
        (let p1 = (if K_SPACE i \<and> \<not> space_pressed_prev p then
                     (let p2 = (if current_time i - last_space_press p < 300
                                then p\<lparr> flying := True, velocity_y := 0 \<rparr>
                                else if is_on_ground p
                                then p\<lparr> velocity_y := jump_force p * scale_factor,
                                        is_on_ground := False \<rparr>
                                else p)
                      in p2\<lparr> last_space_press := current_time i \<rparr>)
                   else p)
         in p1\<lparr> space_pressed_prev := K_SPACE i \<rparr>)
      else
        (let p1 = (if K_SPACE i \<and> \<not> space_pressed_prev p then
                     (let p2 = (if current_time i - last_space_press p < 300
                                then p\<lparr> flying := False, velocity_y := 0 \<rparr>
                                else p)
                      in p2\<lparr> last_space_press := current_time i \<rparr>)
                   else p)
         in p1\<lparr> space_pressed_prev := K_SPACE i \<rparr>))"

definition gravity_step :: "world \<Rightarrow> real \<Rightarrow> real \<Rightarrow> real \<Rightarrow> player \<Rightarrow> player" where
  "gravity_step W dt ws scale_factor p =
     (if \<not> flying p then
        (let vy = velocity_y p - gravity p * dt * 60;
             p1 = p\<lparr> velocity_y := vy, height := height p + vy * dt * 60 * scale_factor \<rparr>
         in if height p1 < floor_level W ws p1
            then p1\<lparr> height := floor_level W ws p1, velocity_y := 0, is_on_ground := True \<rparr>
            else p1\<lparr> is_on_ground := False \<rparr>)
      else p)"

text \<open>
  \<^verbatim>\<open>update_player(player, mouse_rel, draw_distance, cm, dt, world_scale)\<close>. The division
  \<^verbatim>\<open>1.0 / world_scale\<close> raises when the scale is 0. \<^verbatim>\<open>draw_distance\<close> is not used by the
  body; the chunk bookkeeping of \<^verbatim>\<open>load_chunks_around\<close> touches only \<^verbatim>\<open>cm\<close> and is left out.
\<close>

definition update_player :: "world \<Rightarrow> player \<Rightarrow> input \<Rightarrow> real \<Rightarrow> real \<Rightarrow> error + player" where
  "update_player W p i dt ws =
     (let p1 = mouse_look i dt p in
      if ws = 0 then Inl ZeroDivisionError
      else
        (let scale_factor = 1 / ws;
             p2 = horizontal_movement i dt scale_factor p1;
             p3 = clamp_position W p2;
             p4 = vertical_movement i dt scale_factor p3;
             p5 = terrain_collision W ws p4;
             p6 = pitch_update i dt p5;
             p7 = flying_toggle i scale_factor p6
         in Inr (gravity_step W dt ws scale_factor p7)))"

text \<open>The player as it enters the flying-toggle block: the first six blocks applied.\<close>

definition before_toggle :: "world \<Rightarrow> player \<Rightarrow> input \<Rightarrow> real \<Rightarrow> real \<Rightarrow> player" where
  "before_toggle W p i dt ws =
     pitch_update i dt (terrain_collision W ws (vertical_movement i dt (1 / ws)
       (clamp_position W (horizontal_movement i dt (1 / ws) (mouse_look i dt p)))))"

text \<open>The \<^verbatim>\<open>move_dir\<close> of the source for a player's angle and local velocity: the velocity in
  map coordinates.\<close>

definition move_dir :: "player \<Rightarrow> real \<times> real" where
  "move_dir p =
     (cos (angle p) * snd (vel p) - sin (angle p) * fst (vel p),
      sin (angle p) * snd (vel p) + cos (angle p) * fst (vel p))"

section \<open>The raycaster\<close>

text \<open>
  The frame buffer \<^verbatim>\<open>screen_array\<close> maps (column, row) to a colour. The parameters of
  \<^verbatim>\<open>ray_casting\<close> after \<^verbatim>\<open>screen_array\<close> are the fields of \<open>cast_args\<close>, under their
  source names.
\<close>

type_synonym screen = "int \<times> int \<Rightarrow> color"

record cast_args =
  player_pos :: "real \<times> real"
  player_angle :: real
  player_height :: real
  player_pitch :: real
  screen_width :: nat
  screen_height :: int
  delta_angle :: real
  ray_distance :: int
  h_fov :: real
  scale_height :: real
  world_scale :: real

text \<open>
  The state of one call: the horizon buffer \<^verbatim>\<open>y_buffer\<close>, the flag \<^verbatim>\<open>first_contact\<close> of the
  current column, and three logs that record, in order, what the call does: every write
  \<^verbatim>\<open>screen_array[num_ray, screen_y] = colour\<close> (\<open>painted\<close>), every index pair used on the
  terrain arrays (\<open>sampled\<close>), and the value of \<^verbatim>\<open>y_buffer[num_ray]\<close> at the end of every
  iteration of the depth loop (\<open>horizon_log\<close>). The logs are only written, never read.
\<close>

record cast_state =
  y_buffer :: "int list"
  first_contact :: bool
  painted :: "(int \<times> int \<times> color) list"
  sampled :: "(int \<times> int) list"
  horizon_log :: "(nat \<times> int) list"

text \<open>The grid cell of a depth sample; \<open>None\<close> is the \<^verbatim>\<open>break\<close> of the clamp mode.\<close>

definition sample_xy :: "world \<Rightarrow> cast_args \<Rightarrow> real \<Rightarrow> real \<Rightarrow> int \<Rightarrow> (int \<times> int) option" where
  "sample_xy W a sin_a cos_a depth =
     (if INFINITE_MAP W then
        Some (py_int (fst (player_pos a) + real_of_int depth * cos_a) mod map_width W,
              py_int (snd (player_pos a) + real_of_int depth * sin_a) mod map_height W)
      else
        (let x = py_int (fst (player_pos a) + real_of_int depth * cos_a);
             y = py_int (snd (player_pos a) + real_of_int depth * sin_a)
         in if x < 0 \<or> x \<ge> map_width W \<or> y < 0 \<or> y \<ge> map_height W then None
            else Some (x, y)))"

definition depth_corr :: "cast_args \<Rightarrow> real \<Rightarrow> int \<Rightarrow> real" where
  "depth_corr a ray_angle depth = real_of_int depth * cos (player_angle a - ray_angle)"

text \<open>\<^verbatim>\<open>height_on_screen\<close> as first computed: truncated, not yet clamped.\<close>

definition height_on_screen :: "world \<Rightarrow> cast_args \<Rightarrow> real \<Rightarrow> int \<Rightarrow> int \<times> int \<Rightarrow> int" where
  "height_on_screen W a ray_angle depth xy =
     (let scaled_height = real_of_int (base_height_map W (fst xy) (snd xy)) * world_scale a
      in py_int ((player_height a - scaled_height) / depth_corr a ray_angle depth * scale_height a
                 + player_pitch a))"

text \<open>
  The body of the depth loop from \<^verbatim>\<open>depth_corr = ...\<close> on, for a sample that did not break.
  The float division raises when \<^verbatim>\<open>depth_corr\<close> is 0.
\<close>

definition depth_step ::
  "world \<Rightarrow> cast_args \<Rightarrow> nat \<Rightarrow> real \<Rightarrow> int \<Rightarrow> int \<times> int \<Rightarrow> cast_state \<Rightarrow> error + cast_state" where
  "depth_step W a num_ray ray_angle depth xy st =
     (if depth_corr a ray_angle depth = 0 then Inl ZeroDivisionError
      else
        (let hos0 = height_on_screen W a ray_angle depth xy;
             st1 = (if \<not> first_contact st
                    then st\<lparr> y_buffer := (y_buffer st)[num_ray := min hos0 (screen_height a)],
                             first_contact := True \<rparr>
                    else st);
             hos = (if hos0 < 0 then 0 else hos0);
             st2 = (if hos < y_buffer st1 ! num_ray
                    then st1\<lparr> painted := painted st1 @
                                 map (\<lambda>screen_y. (int num_ray, screen_y,
                                                   base_color_map W (fst xy) (snd xy)))
                                     [hos .. y_buffer st1 ! num_ray - 1],
                              y_buffer := (y_buffer st1)[num_ray := hos] \<rparr>
                    else st1)
         in Inr (st2\<lparr> sampled := sampled st2 @ [xy],
                      horizon_log := horizon_log st2 @ [(num_ray, y_buffer st2 ! num_ray)] \<rparr>)))"

text \<open>The depth loop of one column over the depths still to visit.\<close>

fun march ::
  "world \<Rightarrow> cast_args \<Rightarrow> nat \<Rightarrow> real \<Rightarrow> int list \<Rightarrow> cast_state \<Rightarrow> error option \<times> cast_state" where
  "march W a num_ray ray_angle [] st = (None, st)"
| "march W a num_ray ray_angle (depth # ds) st =
     (case sample_xy W a (sin ray_angle) (cos ray_angle) depth of
        None \<Rightarrow> (None, st)
      | Some xy \<Rightarrow>
          (case depth_step W a num_ray ray_angle depth xy st of
             Inl e \<Rightarrow> (Some e, st)
           | Inr st' \<Rightarrow> march W a num_ray ray_angle ds st'))"

text \<open>The column loop over the columns still to visit; \<^verbatim>\<open>ray_angle += delta_angle\<close> after each.\<close>

fun cast_columns ::
  "world \<Rightarrow> cast_args \<Rightarrow> nat list \<Rightarrow> real \<Rightarrow> cast_state \<Rightarrow> error option \<times> cast_state" where
  "cast_columns W a [] ray_angle st = (None, st)"
| "cast_columns W a (num_ray # ns) ray_angle st =
     (case march W a num_ray ray_angle [1 .. ray_distance a - 1] (st\<lparr> first_contact := False \<rparr>) of
        (Some e, st') \<Rightarrow> (Some e, st')
      | (None, st') \<Rightarrow> cast_columns W a ns (ray_angle + delta_angle a) st')"

definition ray_casting_run :: "world \<Rightarrow> cast_args \<Rightarrow> error option \<times> cast_state" where
  "ray_casting_run W a =
     cast_columns W a [0 ..< screen_width a] (player_angle a - h_fov a)
       \<lparr> y_buffer = replicate (screen_width a) (screen_height a),
         first_contact = False, painted = [], sampled = [], horizon_log = [] \<rparr>"

definition write_pixel :: "screen \<Rightarrow> int \<times> int \<times> color \<Rightarrow> screen" where
  "write_pixel s w = s((fst w, fst (snd w)) := snd (snd w))"

definition ray_casting :: "world \<Rightarrow> screen \<Rightarrow> cast_args \<Rightarrow> error + screen" where
  "ray_casting W screen_array a =
     (case ray_casting_run W a of
        (Some e, st) \<Rightarrow> Inl e
      | (None, st) \<Rightarrow> Inr (foldl write_pixel screen_array (painted st)))"

section \<open>The renderer and the application\<close>

text \<open>
  The sky is drawn by pygame (\<^verbatim>\<open>Surface.blit\<close>, \<^verbatim>\<open>surfarray.array3d\<close>): the array
  that the two blits of the pre-rendered sky give for an offset, a width and a height is the
  field \<open>vr_sky\<close>; \<open>vr_sky_width\<close> is \<^verbatim>\<open>sky_image.get_width()\<close>.
\<close>

record voxel_render =
  vr_fov :: real
  vr_h_fov :: real
  vr_num_rays :: nat
  vr_delta_angle :: real
  vr_ray_distance :: int
  vr_scale_height :: real
  vr_sky :: "int \<Rightarrow> nat \<Rightarrow> int \<Rightarrow> screen"
  vr_sky_width :: int
  vr_screen_array :: screen

definition create_voxel_render :: "(int \<Rightarrow> nat \<Rightarrow> int \<Rightarrow> screen) \<Rightarrow> nat \<Rightarrow> int \<Rightarrow> voxel_render" where
  "create_voxel_render sky width hgt =
     \<lparr> vr_fov = pi / 6,
       vr_h_fov = (pi / 6) / 2,
       vr_num_rays = width,
       vr_delta_angle = (pi / 6) / real width,
       vr_ray_distance = 1000,
       vr_scale_height = 920,
       vr_sky = sky,
       vr_sky_width = py_int (real width * 1.5),
       vr_screen_array = (\<lambda>_. (0, 0, 0)) \<rparr>"

text \<open>
  \<^verbatim>\<open>update_voxel_render(vr, player, width, height, draw_distance, current_time, world_scale)\<close>.
  Both dictionaries are passed by reference, so the model returns both.
\<close>

definition update_voxel_render ::
  "world \<Rightarrow> voxel_render \<Rightarrow> player \<Rightarrow> nat \<Rightarrow> int \<Rightarrow> int \<Rightarrow> int \<Rightarrow> real
     \<Rightarrow> error + (voxel_render \<times> player)" where
  "update_voxel_render W vr p width hgt draw_dist now ws =
     (let vr1 = vr\<lparr> vr_ray_distance := draw_dist \<rparr>;
          sky_x_offset = py_int (angle p / (2 * pi) * real width) mod vr_sky_width vr1;
          vr2 = vr1\<lparr> vr_screen_array := vr_sky vr1 sky_x_offset width hgt \<rparr>;
          breath_offset = BREATH_AMPLITUDE * sin (real_of_int now * BREATH_FREQUENCY);
          effective_height = height p + breath_offset
      in case ray_casting W (vr_screen_array vr2)
                \<lparr> player_pos = pos p, player_angle = angle p, player_height = effective_height,
                  player_pitch = pitch p, screen_width = width, screen_height = hgt,
                  delta_angle = vr_delta_angle vr2, ray_distance = vr_ray_distance vr2,
                  h_fov = vr_h_fov vr2, scale_height = vr_scale_height vr2, world_scale = ws \<rparr> of
           Inl e \<Rightarrow> Inl e
         | Inr arr \<Rightarrow> Inr (vr2\<lparr> vr_screen_array := arr \<rparr>, p))"

record app =
  app_width :: nat
  app_height :: int
  app_draw_distance :: int
  app_player :: player
  app_voxel_render :: voxel_render
  app_dt :: real
  app_world_scale :: real

definition init_app :: "world \<Rightarrow> (int \<Rightarrow> nat \<Rightarrow> int \<Rightarrow> screen) \<Rightarrow> app" where
  "init_app W sky =
     \<lparr> app_width = 800, app_height = 450,
       app_draw_distance = DRAW_DISTANCE,
       app_player = create_player W,
       app_voxel_render = create_voxel_render sky 800 450,
       app_dt = 0,
       app_world_scale = WORLD_SCALE \<rparr>"

text \<open>The first block of \<^verbatim>\<open>update_app\<close>: the four tests on the tuning keys.\<close>

definition tune_parameters :: "input \<Rightarrow> app \<Rightarrow> app" where
  "tune_parameters i ap =
     (let a1 = (if K_PAGEUP i
                then ap\<lparr> app_draw_distance := min 3000 (app_draw_distance ap + 50) \<rparr> else ap);
          a2 = (if K_PAGEDOWN i
                then a1\<lparr> app_draw_distance := max 500 (app_draw_distance a1 - 50) \<rparr> else a1);
          a3 = (if K_EQUALS i \<or> K_KP_PLUS i
                then a2\<lparr> app_world_scale := min WORLD_SCALE_MAX (app_world_scale a2 + WORLD_SCALE_STEP) \<rparr>
                else a2)
      in if K_MINUS i \<or> K_KP_MINUS i
         then a3\<lparr> app_world_scale := max WORLD_SCALE_MIN (app_world_scale a3 - WORLD_SCALE_STEP) \<rparr>
         else a3)"

definition update_app :: "world \<Rightarrow> app \<Rightarrow> input \<Rightarrow> error + app" where
  "update_app W ap i =
     (let a1 = tune_parameters i ap in
      case update_player W (app_player a1) i (app_dt a1) (app_world_scale a1) of
        Inl e \<Rightarrow> Inl e
      | Inr p \<Rightarrow>
          (case update_voxel_render W (app_voxel_render a1) p (app_width a1) (app_height a1)
                  (app_draw_distance a1) (render_time i) (app_world_scale a1) of
             Inl e \<Rightarrow> Inl e
           | Inr (vr, p') \<Rightarrow> Inr (a1\<lparr> app_player := p', app_voxel_render := vr \<rparr>)))"

text \<open>One pass of the loop of \<^verbatim>\<open>run_app\<close>: the clock sets \<^verbatim>\<open>dt\<close>, then \<^verbatim>\<open>update_app\<close>.\<close>

definition app_tick :: "world \<Rightarrow> app \<Rightarrow> real \<times> input \<Rightarrow> error + app" where
  "app_tick W ap di = update_app W (ap\<lparr> app_dt := fst di \<rparr>) (snd di)"

section \<open>Float64 rounding of the velocity update\<close>

text \<open>
  Whether the velocity keeps shrinking depends on rounding, so the two velocity lines of
  \<^verbatim>\<open>update_player\<close> are modelled a second time with the rounding of NumPy's float64 written out.
  A binary64 number of magnitude in \<open>[2^e, 2^(e+1))\<close> is a multiple of \<open>2^(e-52)\<close>; below
  \<open>2^(-1022)\<close> (the subnormal range) the spacing stays \<open>2^(-1074)\<close>. \<open>round64\<close> rounds to the
  nearest such multiple, ties to the even one. Overflow to infinity is not modelled: the
  values concerned only shrink.
\<close>

definition f64_emin :: int where "f64_emin = - 1022"

definition f64_exponent :: "real \<Rightarrow> int" where
  "f64_exponent x = max \<lfloor>log 2 \<bar>x\<bar>\<rfloor> f64_emin"

definition f64_ulp :: "real \<Rightarrow> real" where
  "f64_ulp x = 2 powr real_of_int (f64_exponent x - 52)"

definition round_half_even :: "real \<Rightarrow> int" where
  "round_half_even r =
     (let n = \<lfloor>r\<rfloor>
      in if r - real_of_int n < 1 / 2 then n
         else if 1 / 2 < r - real_of_int n then n + 1
         else if even n then n else n + 1)"

definition round64 :: "real \<Rightarrow> real" where
  "round64 x =
     (if x = 0 then 0 else real_of_int (round_half_even (x / f64_ulp x)) * f64_ulp x)"


definition min_subnormal :: real where "min_subnormal = 2 powr real_of_int (f64_emin - 52)"

text \<open>
  The lines
  \<^verbatim>\<open>player['vel'] += input_vec * ACCELERATION * dt * 60 * scale_factor\<close> and
  \<^verbatim>\<open>player['vel'] *= math.pow(DAMPING, dt * 60)\<close>, with every arithmetic result passed through
  \<open>rnd\<close>, in the order NumPy evaluates them. The literal \<^verbatim>\<open>0.8\<close> is itself rounded;
  \<^verbatim>\<open>math.pow\<close> is taken as correctly rounded. With the identity as \<open>rnd\<close> this is the
  velocity of \<open>horizontal_movement\<close>; with \<open>round64\<close> it is what the program computes.
\<close>

definition damping_factor :: "(real \<Rightarrow> real) \<Rightarrow> real \<Rightarrow> real" where
  "damping_factor rnd dt = rnd (rnd DAMPING powr rnd (dt * 60))"

definition velocity_step ::
  "(real \<Rightarrow> real) \<Rightarrow> real \<times> real \<Rightarrow> real \<Rightarrow> real \<Rightarrow> real \<times> real \<Rightarrow> real \<times> real" where
  "velocity_step rnd iv dt scale_factor v =
     (let inc = (\<lambda>c. rnd (rnd (rnd (rnd (c * ACCELERATION) * dt) * 60) * scale_factor))
      in (rnd (rnd (fst v + inc (fst iv)) * damping_factor rnd dt),
          rnd (rnd (snd v + inc (snd iv)) * damping_factor rnd dt)))"



section \<open>Runs and example data\<close>

text \<open>
  The loop of \<^verbatim>\<open>run_app\<close> calls \<^verbatim>\<open>update_player\<close> once per tick. \<open>run_player W ticks n p\<close> is
  the player after the first \<open>n\<close> ticks, where tick \<open>k\<close> supplies its input, its \<^verbatim>\<open>dt\<close> and its
  world scale; an error ends the run.
\<close>

fun run_player :: "world \<Rightarrow> (nat \<Rightarrow> input \<times> real \<times> real) \<Rightarrow> nat \<Rightarrow> player \<Rightarrow> error + player" where
  "run_player W ticks 0 p = Inr p"
| "run_player W ticks (Suc n) p =
     (case run_player W ticks n p of
        Inl e \<Rightarrow> Inl e
      | Inr q \<Rightarrow> update_player W q (fst (ticks n)) (fst (snd (ticks n))) (snd (snd (ticks n))))"

text \<open>The player as it enters the boundary block of \<^verbatim>\<open>update_player\<close>.\<close>

definition moved :: "player \<Rightarrow> input \<Rightarrow> real \<Rightarrow> real \<Rightarrow> player" where
  "moved p i dt ws = horizontal_movement i dt (1 / ws) (mouse_look i dt p)"

text \<open>None of the four tests of the boundary block fires on \<open>q\<close>.\<close>

definition no_clamp :: "world \<Rightarrow> player \<Rightarrow> bool" where
  "no_clamp W q \<longleftrightarrow>
     INFINITE_MAP W \<or>
     (0 \<le> fst (pos q) \<and> fst (pos q) < real_of_int (map_width W) \<and>
      0 \<le> snd (pos q) \<and> snd (pos q) < real_of_int (map_height W))"

text \<open>A flat 10 by 10 terrain of height 0, in clamp mode and in wrap mode.\<close>

definition flat_world :: world where
  "flat_world = \<lparr> base_height_map = (\<lambda>x y. 0), base_color_map = (\<lambda>x y. (0, 0, 0)),
                  map_width = 10, map_height = 10, INFINITE_MAP = False \<rparr>"

definition wrap_world :: world where
  "wrap_world = flat_world\<lparr> INFINITE_MAP := True \<rparr>"

text \<open>No key held and no mouse motion, at clock reading \<open>t\<close>; the same with the jump key held.\<close>

definition idle :: "int \<Rightarrow> input" where
  "idle t = \<lparr> K_w = False, K_s = False, K_a = False, K_d = False, K_SPACE = False,
             K_LSHIFT = False, K_RSHIFT = False, K_UP = False, K_DOWN = False,
             K_PAGEUP = False, K_PAGEDOWN = False, K_EQUALS = False, K_KP_PLUS = False,
             K_MINUS = False, K_KP_MINUS = False, mouse_button0 = False,
             mouse_rel = (0, 0), current_time = t, render_time = t \<rparr>"

definition jump_key :: "int \<Rightarrow> input" where
  "jump_key t = (idle t)\<lparr> K_SPACE := True \<rparr>"

text \<open>Two tick sequences at 60 ticks per second and world scale 1: no key at all; and the
  jump key pressed at 1000 ms, released, and pressed again at 1100 ms.\<close>

definition idle_ticks :: "nat \<Rightarrow> input \<times> real \<times> real" where
  "idle_ticks k = (idle (16 * int k), 1 / 60, 1)"

definition double_tap_ticks :: "nat \<Rightarrow> input \<times> real \<times> real" where
  "double_tap_ticks k =
     (if k = 0 then (jump_key 1000, 1 / 60, 1)
      else if k = 1 then (idle 1050, 1 / 60, 1)
      else (jump_key 1100, 1 / 60, 1))"

text \<open>A sky that is black at every offset.\<close>

definition black_sky :: "int \<Rightarrow> nat \<Rightarrow> int \<Rightarrow> screen" where
  "black_sky off width hgt = (\<lambda>xy. (0, 0, 0))"

section \<open>Properties of a render call\<close>

text \<open>A write lands inside the frame; an index pair lies inside the terrain grid.\<close>

definition in_frame :: "cast_args \<Rightarrow> int \<times> int \<times> color \<Rightarrow> bool" where
  "in_frame a w \<longleftrightarrow>
     0 \<le> fst w \<and> fst w < int (screen_width a) \<and> 0 \<le> fst (snd w) \<and> fst (snd w) < screen_height a"

definition in_grid :: "world \<Rightarrow> int \<times> int \<Rightarrow> bool" where
  "in_grid W xy \<longleftrightarrow> 0 \<le> fst xy \<and> fst xy < map_width W \<and> 0 \<le> snd xy \<and> snd xy < map_height W"

text \<open>The pixel of a write; the successive values of \<^verbatim>\<open>y_buffer[c]\<close> recorded for column \<open>c\<close>.\<close>

definition cell :: "int \<times> int \<times> color \<Rightarrow> int \<times> int" where
  "cell w = (fst w, fst (snd w))"

definition column_log :: "nat \<Rightarrow> cast_state \<Rightarrow> int list" where
  "column_log c st = map snd (filter (\<lambda>e. fst e = c) (horizon_log st))"

text \<open>
  Three invariants of the loops. \<open>frame_inv\<close> holds between any two iterations; \<open>column_inv\<close> is
  about the column being marched: every row painted and every value logged for it so far is at
  least the current \<^verbatim>\<open>y_buffer\<close> entry; \<open>untouched\<close> describes a column whose
  march has not started.
\<close>

definition frame_inv :: "cast_args \<Rightarrow> cast_state \<Rightarrow> bool" where
  "frame_inv a st \<longleftrightarrow>
     length (y_buffer st) = screen_width a \<and>
     list_all (in_frame a) (painted st) \<and>
     distinct (map cell (painted st)) \<and>
     (\<forall>c. sorted_wrt (\<ge>) (screen_height a # column_log c st))"

definition column_inv :: "cast_args \<Rightarrow> nat \<Rightarrow> cast_state \<Rightarrow> bool" where
  "column_inv a n st \<longleftrightarrow>
     n < screen_width a \<and>
     y_buffer st ! n \<le> screen_height a \<and>
     (\<forall>w \<in> set (painted st). fst w = int n \<longrightarrow> first_contact st \<and> y_buffer st ! n \<le> fst (snd w)) \<and>
     (\<forall>v \<in> set (column_log n st). first_contact st \<and> y_buffer st ! n \<le> v)"

definition untouched :: "cast_args \<Rightarrow> nat \<Rightarrow> cast_state \<Rightarrow> bool" where
  "untouched a m st \<longleftrightarrow>
     y_buffer st ! m = screen_height a \<and>
     (\<forall>w \<in> set (painted st). fst w \<noteq> int m) \<and>
     column_log m st = []"

text \<open>
  A 10 by 10 terrain with a cliff of height 255 from x = 6 on, and a one-column view from the
  middle of cell (5, 5) straight along the x axis, one depth sample long. The ray angle equals
  the player angle, as for the centre column of a frame of even width, so \<^verbatim>\<open>depth_corr\<close> is
  the depth itself.
\<close>

definition cliff_world :: world where
  "cliff_world = \<lparr> base_height_map = (\<lambda>x y. if 6 \<le> x then 255 else 0),
                   base_color_map = (\<lambda>x y. (0, 0, 0)),
                   map_width = 10, map_height = 10, INFINITE_MAP = False \<rparr>"

definition straight_view :: cast_args where
  "straight_view = \<lparr> player_pos = (5.5, 5.5), player_angle = 0, player_height = 40,
                     player_pitch = 0, screen_width = 1, screen_height = 450, delta_angle = 0,
                     ray_distance = 2, h_fov = 0, scale_height = 920, world_scale = 1 \<rparr>"

text \<open>
  A wrapping terrain of height 39 except for a trench of height 0 at x = 5, and the same view
  four depth samples long.
\<close>

definition valley_world :: world where
  "valley_world = \<lparr> base_height_map = (\<lambda>x y. if x = 5 then 0 else 39),
                    base_color_map = (\<lambda>x y. (34, 139, 34)),
                    map_width = 10, map_height = 10, INFINITE_MAP = True \<rparr>"

definition long_view :: cast_args where
  "long_view = straight_view\<lparr> ray_distance := 5 \<rparr>"

section \<open>The collision invariant\<close>

subsection \<open>Which fields each block of update_player leaves alone\<close>

lemma mouse_look_fields [simp]:
  "pos (mouse_look i dt p) = pos p" "height (mouse_look i dt p) = height p"
  "vel (mouse_look i dt p) = vel p" "v_vel (mouse_look i dt p) = v_vel p"
  "flying (mouse_look i dt p) = flying p" "velocity_y (mouse_look i dt p) = velocity_y p"
  "is_on_ground (mouse_look i dt p) = is_on_ground p"
  "last_space_press (mouse_look i dt p) = last_space_press p"
  "space_pressed_prev (mouse_look i dt p) = space_pressed_prev p"
  "gravity (mouse_look i dt p) = gravity p" "jump_force (mouse_look i dt p) = jump_force p"
  by (simp_all add: mouse_look_def Let_def)

lemma horizontal_movement_fields [simp]:
  "height (horizontal_movement i dt sf p) = height p"
  "v_vel (horizontal_movement i dt sf p) = v_vel p"
  "flying (horizontal_movement i dt sf p) = flying p"
  "velocity_y (horizontal_movement i dt sf p) = velocity_y p"
  "is_on_ground (horizontal_movement i dt sf p) = is_on_ground p"
  "last_space_press (horizontal_movement i dt sf p) = last_space_press p"
  "space_pressed_prev (horizontal_movement i dt sf p) = space_pressed_prev p"
  "gravity (horizontal_movement i dt sf p) = gravity p"
  "jump_force (horizontal_movement i dt sf p) = jump_force p"
  by (simp_all add: horizontal_movement_def Let_def)

lemma clamp_position_fields [simp]:
  "height (clamp_position W p) = height p"
  "v_vel (clamp_position W p) = v_vel p"
  "flying (clamp_position W p) = flying p"
  "velocity_y (clamp_position W p) = velocity_y p"
  "is_on_ground (clamp_position W p) = is_on_ground p"
  "last_space_press (clamp_position W p) = last_space_press p"
  "space_pressed_prev (clamp_position W p) = space_pressed_prev p"
  "gravity (clamp_position W p) = gravity p"
  "jump_force (clamp_position W p) = jump_force p"
  by (simp_all add: clamp_position_def Let_def)

lemma vertical_movement_fields [simp]:
  "pos (vertical_movement i dt sf p) = pos p"
  "vel (vertical_movement i dt sf p) = vel p"
  "flying (vertical_movement i dt sf p) = flying p"
  "velocity_y (vertical_movement i dt sf p) = velocity_y p"
  "is_on_ground (vertical_movement i dt sf p) = is_on_ground p"
  "last_space_press (vertical_movement i dt sf p) = last_space_press p"
  "space_pressed_prev (vertical_movement i dt sf p) = space_pressed_prev p"
  "gravity (vertical_movement i dt sf p) = gravity p"
  "jump_force (vertical_movement i dt sf p) = jump_force p"
  by (simp_all add: vertical_movement_def Let_def)

lemma terrain_collision_fields [simp]:
  "pos (terrain_collision W ws p) = pos p"
  "vel (terrain_collision W ws p) = vel p"
  "flying (terrain_collision W ws p) = flying p"
  "velocity_y (terrain_collision W ws p) = velocity_y p"
  "is_on_ground (terrain_collision W ws p) = is_on_ground p"
  "last_space_press (terrain_collision W ws p) = last_space_press p"
  "space_pressed_prev (terrain_collision W ws p) = space_pressed_prev p"
  "gravity (terrain_collision W ws p) = gravity p"
  "jump_force (terrain_collision W ws p) = jump_force p"
  by (simp_all add: terrain_collision_def)

lemma pitch_update_fields [simp]:
  "pos (pitch_update i dt p) = pos p" "height (pitch_update i dt p) = height p"
  "vel (pitch_update i dt p) = vel p" "v_vel (pitch_update i dt p) = v_vel p"
  "flying (pitch_update i dt p) = flying p" "velocity_y (pitch_update i dt p) = velocity_y p"
  "is_on_ground (pitch_update i dt p) = is_on_ground p"
  "last_space_press (pitch_update i dt p) = last_space_press p"
  "space_pressed_prev (pitch_update i dt p) = space_pressed_prev p"
  "gravity (pitch_update i dt p) = gravity p" "jump_force (pitch_update i dt p) = jump_force p"
  by (simp_all add: pitch_update_def Let_def)

lemma flying_toggle_fields [simp]:
  "pos (flying_toggle i sf p) = pos p" "height (flying_toggle i sf p) = height p"
  "vel (flying_toggle i sf p) = vel p" "v_vel (flying_toggle i sf p) = v_vel p"
  "gravity (flying_toggle i sf p) = gravity p" "jump_force (flying_toggle i sf p) = jump_force p"
  "space_pressed_prev (flying_toggle i sf p) = K_SPACE i"
  by (simp_all add: flying_toggle_def Let_def)

lemma gravity_step_fields [simp]:
  "pos (gravity_step W dt ws sf p) = pos p"
  "vel (gravity_step W dt ws sf p) = vel p"
  "flying (gravity_step W dt ws sf p) = flying p"
  "last_space_press (gravity_step W dt ws sf p) = last_space_press p"
  "space_pressed_prev (gravity_step W dt ws sf p) = space_pressed_prev p"
  "gravity (gravity_step W dt ws sf p) = gravity p"
  "jump_force (gravity_step W dt ws sf p) = jump_force p"
  by (simp_all add: gravity_step_def Let_def)

lemma floor_level_pos: "pos p = pos q \<Longrightarrow> floor_level W ws p = floor_level W ws q"
  by (simp add: floor_level_def)

lemma terrain_collision_floor:
  "floor_level W ws (terrain_collision W ws p) \<le> height (terrain_collision W ws p)"
  by (simp add: terrain_collision_def floor_level_def)

lemma before_toggle_fields [simp]:
  "flying (before_toggle W p i dt ws) = flying p"
  "velocity_y (before_toggle W p i dt ws) = velocity_y p"
  "is_on_ground (before_toggle W p i dt ws) = is_on_ground p"
  "last_space_press (before_toggle W p i dt ws) = last_space_press p"
  "space_pressed_prev (before_toggle W p i dt ws) = space_pressed_prev p"
  "gravity (before_toggle W p i dt ws) = gravity p"
  "jump_force (before_toggle W p i dt ws) = jump_force p"
  by (simp_all add: before_toggle_def)

lemma before_toggle_pos_vel:
  "pos (before_toggle W p i dt ws) = pos (clamp_position W (moved p i dt ws))"
  "vel (before_toggle W p i dt ws) = vel (clamp_position W (moved p i dt ws))"
  by (simp_all add: before_toggle_def moved_def)

lemma before_toggle_floor:
  "floor_level W ws (before_toggle W p i dt ws) \<le> height (before_toggle W p i dt ws)"
proof -
  let ?q = "terrain_collision W ws (vertical_movement i dt (1 / ws)
       (clamp_position W (horizontal_movement i dt (1 / ws) (mouse_look i dt p))))"
  have "floor_level W ws ?q \<le> height ?q" by (rule terrain_collision_floor)
  moreover have "floor_level W ws (before_toggle W p i dt ws) = floor_level W ws ?q"
    by (rule floor_level_pos) (simp add: before_toggle_def)
  ultimately show ?thesis by (simp add: before_toggle_def)
qed

lemma update_player_blocks:
  "ws \<noteq> 0 \<Longrightarrow> update_player W p i dt ws =
     Inr (gravity_step W dt ws (1 / ws) (flying_toggle i (1 / ws) (before_toggle W p i dt ws)))"
  by (simp add: update_player_def before_toggle_def Let_def)

lemma update_player_Inr_iff:
  "update_player W p i dt ws = Inr p' \<longleftrightarrow>
     ws \<noteq> 0 \<and> p' = gravity_step W dt ws (1 / ws) (flying_toggle i (1 / ws) (before_toggle W p i dt ws))"
  by (auto simp: update_player_def before_toggle_def Let_def)

lemma gravity_step_floor:
  "floor_level W ws p \<le> height p \<Longrightarrow>
   floor_level W ws (gravity_step W dt ws sf p) \<le> height (gravity_step W dt ws sf p)"
  by (simp add: gravity_step_def floor_level_def Let_def)

lemma flat_world_height [simp]: "optimized_collision_check flat_world x = 0"
  by (simp add: optimized_collision_check_def flat_world_def Let_def)

lemma flat_world_floor [simp]: "floor_level flat_world ws p = 40 * ws"
  by (simp add: floor_level_def)

text \<open>
  Claim C1. Whenever \<^verbatim>\<open>update_player\<close> returns, for every world (wrap or clamp mode), player,
  input, \<^verbatim>\<open>dt\<close> and world scale, the eye height of the returned player is at least the terrain
  height sampled at its position times the world scale, plus 40 times the world scale.
\<close>

theorem collision_invariant:
  assumes "update_player W p i dt ws = Inr p'"
  shows "real_of_int (optimized_collision_check W (pos p')) * ws + 40 * ws \<le> height p'"
proof -
  let ?q = "before_toggle W p i dt ws"
  let ?t = "flying_toggle i (1 / ws) ?q"
  from assms have p': "p' = gravity_step W dt ws (1 / ws) ?t"
    by (simp add: update_player_Inr_iff)
  have "floor_level W ws ?q \<le> height ?q" by (rule before_toggle_floor)
  moreover have "floor_level W ws ?t = floor_level W ws ?q"
    by (rule floor_level_pos) simp
  ultimately have "floor_level W ws ?t \<le> height ?t" by simp
  then have "floor_level W ws p' \<le> height p'"
    unfolding p' by (rule gravity_step_floor)
  then show ?thesis by (simp add: floor_level_def)
qed

theorem collision_invariant_witness:
  "update_player flat_world (create_player flat_world) (idle 1000) (1 / 60) 1
     \<noteq> Inl ZeroDivisionError
   \<and> 40 \<le> height (projr (update_player flat_world (create_player flat_world) (idle 1000) (1 / 60) 1))"
proof -
  obtain p' where run: "update_player flat_world (create_player flat_world) (idle 1000) (1 / 60) 1 = Inr p'"
    by (simp add: update_player_blocks)
  from collision_invariant [OF run] have "40 \<le> height p'" by simp
  with run show ?thesis by simp
qed

section \<open>The boundary block\<close>

lemma input_vec_idle [simp]: "input_vec (idle t) = (0, 0)"
  by (simp add: input_vec_def idle_def)

lemma input_vec_jump_key [simp]: "input_vec (jump_key t) = (0, 0)"
  by (simp add: input_vec_def idle_def jump_key_def)

lemma idle_keys [simp]:
  "K_SPACE (idle t) = False" "current_time (idle t) = t" "mouse_rel (idle t) = (0, 0)"
  "K_SPACE (jump_key t) = True" "current_time (jump_key t) = t" "mouse_rel (jump_key t) = (0, 0)"
  by (simp_all add: idle_def jump_key_def)

lemma moved_pos_vel:
  "vel (moved p i dt ws) =
     ((fst (vel p) + fst (input_vec i) * ACCELERATION * dt * 60 * (1 / ws)) * (DAMPING powr (dt * 60)),
      (snd (vel p) + snd (input_vec i) * ACCELERATION * dt * 60 * (1 / ws)) * (DAMPING powr (dt * 60)))"
  "pos (moved p i dt ws) =
     (fst (pos p) + (cos (angle (mouse_look i dt p)) * snd (vel (moved p i dt ws))
                     - sin (angle (mouse_look i dt p)) * fst (vel (moved p i dt ws))) * dt * 60 * (1 / ws),
      snd (pos p) + (sin (angle (mouse_look i dt p)) * snd (vel (moved p i dt ws))
                     + cos (angle (mouse_look i dt p)) * fst (vel (moved p i dt ws))) * dt * 60 * (1 / ws))"
  by (simp_all add: moved_def horizontal_movement_def Let_def)

lemma clamp_position_no_clamp: "no_clamp W q \<Longrightarrow> clamp_position W q = q"
  by (auto simp: no_clamp_def clamp_position_def Let_def)

lemma update_player_pos_vel:
  "update_player W p i dt ws = Inr p' \<Longrightarrow>
     pos p' = pos (clamp_position W (moved p i dt ws)) \<and>
     vel p' = vel (clamp_position W (moved p i dt ws))"
  by (simp add: update_player_Inr_iff before_toggle_pos_vel)

lemma clamp_position_range:
  assumes "\<not> INFINITE_MAP W" "1 \<le> map_width W" "1 \<le> map_height W"
  shows "0 \<le> fst (pos (clamp_position W q))"
    and "fst (pos (clamp_position W q)) < real_of_int (map_width W)"
    and "0 \<le> snd (pos (clamp_position W q))"
    and "snd (pos (clamp_position W q)) < real_of_int (map_height W)"
  using assms by (auto simp: clamp_position_def Let_def)

lemma clamp_position_low_x:
  "\<not> INFINITE_MAP W \<Longrightarrow> fst (pos q) < 0 \<Longrightarrow> fst (pos (clamp_position W q)) = 0"
  by (auto simp: clamp_position_def Let_def)

lemma clamp_position_high_x:
  "\<not> INFINITE_MAP W \<Longrightarrow> real_of_int (map_width W) \<le> fst (pos q) \<Longrightarrow> 1 \<le> map_width W \<Longrightarrow>
     fst (pos (clamp_position W q)) = real_of_int (map_width W - 1)"
  by (auto simp: clamp_position_def Let_def)

lemma clamp_position_low_y:
  "\<not> INFINITE_MAP W \<Longrightarrow> snd (pos q) < 0 \<Longrightarrow> snd (pos (clamp_position W q)) = 0"
  by (auto simp: clamp_position_def Let_def)

lemma clamp_position_high_y:
  "\<not> INFINITE_MAP W \<Longrightarrow> real_of_int (map_height W) \<le> snd (pos q) \<Longrightarrow> 1 \<le> map_height W \<Longrightarrow>
     snd (pos (clamp_position W q)) = real_of_int (map_height W - 1)"
  by (auto simp: clamp_position_def Let_def)

text \<open>The block when only the high x test fires.\<close>

lemma clamp_position_high_x_only:
  assumes "\<not> INFINITE_MAP W" "1 \<le> map_width W" "real_of_int (map_width W) \<le> fst (pos q)"
    "0 \<le> snd (pos q)" "snd (pos q) < real_of_int (map_height W)"
  shows "pos (clamp_position W q) = (real_of_int (map_width W - 1), snd (pos q))"
    and "vel (clamp_position W q) = (min 0 (fst (vel q)), snd (vel q))"
proof -
  from assms(2) have "0 \<le> real_of_int (map_width W)" by simp
  with assms(3) have "\<not> fst (pos q) < 0" by linarith
  with assms show "pos (clamp_position W q) = (real_of_int (map_width W - 1), snd (pos q))"
    and "vel (clamp_position W q) = (min 0 (fst (vel q)), snd (vel q))"
    by (simp_all add: clamp_position_def Let_def)
qed

lemma angle_later_blocks [simp]:
  "angle (horizontal_movement i dt sf p) = angle p"
  "angle (clamp_position W p) = angle p"
  "angle (vertical_movement i dt sf p) = angle p"
  "angle (terrain_collision W ws p) = angle p"
  "angle (pitch_update i dt p) = angle p"
  "angle (flying_toggle i sf p) = angle p"
  "angle (gravity_step W dt ws sf p) = angle p"
  by (simp_all add: horizontal_movement_def clamp_position_def vertical_movement_def
        terrain_collision_def pitch_update_def flying_toggle_def gravity_step_def Let_def)

lemma update_player_angle:
  "update_player W p i dt ws = Inr p' \<Longrightarrow> angle p' = angle (mouse_look i dt p)"
  by (simp add: update_player_Inr_iff before_toggle_def)

text \<open>
  Claim C5, as amended. In clamp mode, on a map of at least one cell in each direction, the
  position returned by \<^verbatim>\<open>update_player\<close> (the boundary block is the last to write it) lies in
  the half-open rectangle \<open>0 \<le> x < W\<close>, \<open>0 \<le> y < H\<close>. A coordinate that enters the block
  below 0 is set to 0; one that enters it at or beyond the dimension is set to the dimension
  minus 1. Nothing is said about the velocity.
\<close>

theorem boundary_clamp:
  assumes run: "update_player W p i dt ws = Inr p'"
    and clamp: "\<not> INFINITE_MAP W" and dims: "1 \<le> map_width W" "1 \<le> map_height W"
  shows "0 \<le> fst (pos p') \<and> fst (pos p') < real_of_int (map_width W) \<and>
         0 \<le> snd (pos p') \<and> snd (pos p') < real_of_int (map_height W) \<and>
         (fst (pos (moved p i dt ws)) < 0 \<longrightarrow> fst (pos p') = 0) \<and>
         (real_of_int (map_width W) \<le> fst (pos (moved p i dt ws)) \<longrightarrow>
            fst (pos p') = real_of_int (map_width W - 1)) \<and>
         (snd (pos (moved p i dt ws)) < 0 \<longrightarrow> snd (pos p') = 0) \<and>
         (real_of_int (map_height W) \<le> snd (pos (moved p i dt ws)) \<longrightarrow>
            snd (pos p') = real_of_int (map_height W - 1))"
proof -
  note pv = update_player_pos_vel [OF run]
  show ?thesis
    unfolding conjunct1 [OF pv]
    using clamp_position_range [OF clamp dims, of "moved p i dt ws"]
      clamp_position_low_x [OF clamp, of "moved p i dt ws"]
      clamp_position_high_x [OF clamp, of "moved p i dt ws"]
      clamp_position_low_y [OF clamp, of "moved p i dt ws"]
      clamp_position_high_y [OF clamp, of "moved p i dt ws"] dims
    by blast
qed

lemma abs_DAMPING [simp]: "\<bar>DAMPING\<bar> = 0.8"
  by (simp add: DAMPING_def)

lemma flat_world_fields [simp]:
  "map_width flat_world = 10" "map_height flat_world = 10" "INFINITE_MAP flat_world = False"
  by (simp_all add: flat_world_def)

lemma create_player_flat [simp]:
  "pos (create_player flat_world) = (5, 5)" "height (create_player flat_world) = 40"
  "vel (create_player flat_world) = (0, 0)"
  by (simp_all add: create_player_def Let_def flat_world_def optimized_collision_check_def py_int_def)

lemma create_player_fields [simp]:
  "flying (create_player W) = False" "velocity_y (create_player W) = 0"
  "is_on_ground (create_player W) = True" "last_space_press (create_player W) = 0"
  "space_pressed_prev (create_player W) = False" "gravity (create_player W) = 0.9"
  "jump_force (create_player W) = 12" "angle (create_player W) = pi / 4"
  "v_vel (create_player W) = 0"
  by (simp_all add: create_player_def Let_def)

text \<open>The tick of a player at (9.5, 5) with local velocity (5, 10), looking along the x axis.\<close>

lemma edge_run_moved:
  "pos (moved ((create_player flat_world)\<lparr> pos := (9.5, 5), vel := (5, 10), angle := 0 \<rparr>)
          (idle 1000) (1 / 60) 1) = (17.5, 9)"
  "vel (moved ((create_player flat_world)\<lparr> pos := (9.5, 5), vel := (5, 10), angle := 0 \<rparr>)
          (idle 1000) (1 / 60) 1) = (4, 8)"
  by (simp_all add: moved_pos_vel mouse_look_def)

lemma edge_run:
  "\<exists>p'. update_player flat_world
           ((create_player flat_world)\<lparr> pos := (9.5, 5), vel := (5, 10), angle := 0 \<rparr>)
           (idle 1000) (1 / 60) 1 = Inr p' \<and>
         pos p' = (9, 9) \<and> vel p' = (0, 8) \<and> angle p' = 0"
proof -
  let ?p = "(create_player flat_world)\<lparr> pos := (9.5, 5), vel := (5, 10), angle := 0 \<rparr>"
  let ?q = "moved ?p (idle 1000) (1 / 60) 1"
  obtain p' where run: "update_player flat_world ?p (idle 1000) (1 / 60) 1 = Inr p'"
    by (simp add: update_player_blocks)
  have "pos (clamp_position flat_world ?q) = (real_of_int (map_width flat_world - 1), snd (pos ?q))"
    and "vel (clamp_position flat_world ?q) = (min 0 (fst (vel ?q)), snd (vel ?q))"
    using edge_run_moved by (intro clamp_position_high_x_only; simp)+
  with edge_run_moved have "pos (clamp_position flat_world ?q) = (9, 9)"
    "vel (clamp_position flat_world ?q) = (0, 8)"
    by simp_all
  with update_player_pos_vel [OF run] have "pos p' = (9, 9)" "vel p' = (0, 8)" by simp_all
  moreover from update_player_angle [OF run] have "angle p' = 0" by (simp add: mouse_look_def)
  ultimately show ?thesis using run by blast
qed

text \<open>
  Claim C5 as stated fails twice. The high-edge test is \<^verbatim>\<open>pos >= map_width\<close>, so a position
  strictly between \<open>W - 1\<close> and \<open>W\<close> is left alone: on the 10 by 10 map a resting player at
  x = 9.5 is still at 9.5 after the call, above \<open>W - 1 = 9\<close>. And the velocity is kept in the
  player's own frame while the position is in map coordinates: a player at (9.5, 5) with
  velocity (5, 10), looking along the x axis, is moved to x = 17.5 and put back at x = 9, the
  block zeroes the first velocity component, and the velocity that is left, (0, 8), still
  moves the player by 8 per tick along x, out of the map.
\<close>

theorem boundary_clamp_counterexample:
  "\<not> INFINITE_MAP flat_world \<and>
   update_player flat_world ((create_player flat_world)\<lparr> pos := (9.5, 5) \<rparr>) (idle 1000) (1 / 60) 1
     \<noteq> Inl ZeroDivisionError \<and>
   \<not> fst (pos (projr (update_player flat_world ((create_player flat_world)\<lparr> pos := (9.5, 5) \<rparr>)
                        (idle 1000) (1 / 60) 1)))
       \<le> real_of_int (map_width flat_world - 1) \<and>
   real_of_int (map_width flat_world)
     \<le> fst (pos (moved ((create_player flat_world)\<lparr> pos := (9.5, 5), vel := (5, 10), angle := 0 \<rparr>)
                    (idle 1000) (1 / 60) 1)) \<and>
   pos (projr (update_player flat_world
          ((create_player flat_world)\<lparr> pos := (9.5, 5), vel := (5, 10), angle := 0 \<rparr>)
          (idle 1000) (1 / 60) 1)) = (9, 9) \<and>
   vel (projr (update_player flat_world
          ((create_player flat_world)\<lparr> pos := (9.5, 5), vel := (5, 10), angle := 0 \<rparr>)
          (idle 1000) (1 / 60) 1)) = (0, 8) \<and>
   fst (move_dir (projr (update_player flat_world
          ((create_player flat_world)\<lparr> pos := (9.5, 5), vel := (5, 10), angle := 0 \<rparr>)
          (idle 1000) (1 / 60) 1))) = 8"
proof -
  let ?p = "(create_player flat_world)\<lparr> pos := (9.5, 5) \<rparr>"
  have moved: "pos (moved ?p (idle 1000) (1 / 60) 1) = (9.5, 5)"
    by (simp add: moved_pos_vel)
  have "no_clamp flat_world (moved ?p (idle 1000) (1 / 60) 1)"
    using moved by (simp add: no_clamp_def)
  then have "pos (clamp_position flat_world (moved ?p (idle 1000) (1 / 60) 1)) = (9.5, 5)"
    using moved by (simp add: clamp_position_no_clamp)
  then have first: "update_player flat_world ?p (idle 1000) (1 / 60) 1 \<noteq> Inl ZeroDivisionError \<and>
     \<not> fst (pos (projr (update_player flat_world ?p (idle 1000) (1 / 60) 1)))
         \<le> real_of_int (map_width flat_world - 1)"
    by (simp add: update_player_blocks before_toggle_pos_vel)
  from edge_run obtain p' where
    "update_player flat_world
       ((create_player flat_world)\<lparr> pos := (9.5, 5), vel := (5, 10), angle := 0 \<rparr>)
       (idle 1000) (1 / 60) 1 = Inr p'"
    "pos p' = (9, 9)" "vel p' = (0, 8)" "angle p' = 0"
    by blast
  then have second: "pos (projr (update_player flat_world
          ((create_player flat_world)\<lparr> pos := (9.5, 5), vel := (5, 10), angle := 0 \<rparr>)
          (idle 1000) (1 / 60) 1)) = (9, 9) \<and>
     vel (projr (update_player flat_world
          ((create_player flat_world)\<lparr> pos := (9.5, 5), vel := (5, 10), angle := 0 \<rparr>)
          (idle 1000) (1 / 60) 1)) = (0, 8) \<and>
     fst (move_dir (projr (update_player flat_world
          ((create_player flat_world)\<lparr> pos := (9.5, 5), vel := (5, 10), angle := 0 \<rparr>)
          (idle 1000) (1 / 60) 1))) = 8"
    by (simp add: move_dir_def)
  have third: "real_of_int (map_width flat_world)
     \<le> fst (pos (moved ((create_player flat_world)\<lparr> pos := (9.5, 5), vel := (5, 10), angle := 0 \<rparr>)
                    (idle 1000) (1 / 60) 1))"
    using edge_run_moved by simp
  from first second third show ?thesis by simp
qed

theorem boundary_clamp_witness:
  "fst (pos (projr (update_player flat_world
        ((create_player flat_world)\<lparr> pos := (9.5, 5), vel := (5, 10), angle := 0 \<rparr>)
        (idle 1000) (1 / 60) 1))) = 9 \<and>
   0 \<le> snd (pos (projr (update_player flat_world
        ((create_player flat_world)\<lparr> pos := (9.5, 5), vel := (5, 10), angle := 0 \<rparr>)
        (idle 1000) (1 / 60) 1))) \<and>
   snd (pos (projr (update_player flat_world
        ((create_player flat_world)\<lparr> pos := (9.5, 5), vel := (5, 10), angle := 0 \<rparr>)
        (idle 1000) (1 / 60) 1))) < 10"
proof -
  let ?p = "(create_player flat_world)\<lparr> pos := (9.5, 5), vel := (5, 10), angle := 0 \<rparr>"
  obtain p' where run: "update_player flat_world ?p (idle 1000) (1 / 60) 1 = Inr p'"
    by (simp add: update_player_blocks)
  have w: "\<not> INFINITE_MAP flat_world" "1 \<le> map_width flat_world" "1 \<le> map_height flat_world"
    by simp_all
  from boundary_clamp [OF run w] edge_run_moved(1) run show ?thesis
    by simp
qed

section \<open>The jump key\<close>

lemma flying_toggle_released:
  "\<not> K_SPACE i \<Longrightarrow>
     flying (flying_toggle i sf p) = flying p \<and>
     last_space_press (flying_toggle i sf p) = last_space_press p \<and>
     velocity_y (flying_toggle i sf p) = velocity_y p \<and>
     is_on_ground (flying_toggle i sf p) = is_on_ground p"
  by (simp add: flying_toggle_def Let_def)

lemma flying_toggle_held:
  "space_pressed_prev p \<Longrightarrow>
     flying (flying_toggle i sf p) = flying p \<and>
     last_space_press (flying_toggle i sf p) = last_space_press p \<and>
     velocity_y (flying_toggle i sf p) = velocity_y p \<and>
     is_on_ground (flying_toggle i sf p) = is_on_ground p"
  by (simp add: flying_toggle_def Let_def)

lemma flying_toggle_double_tap:
  "\<not> flying p \<Longrightarrow> K_SPACE i \<Longrightarrow> \<not> space_pressed_prev p \<Longrightarrow>
   current_time i - last_space_press p < 300 \<Longrightarrow>
     flying (flying_toggle i sf p) \<and> velocity_y (flying_toggle i sf p) = 0 \<and>
     last_space_press (flying_toggle i sf p) = current_time i \<and>
     is_on_ground (flying_toggle i sf p) = is_on_ground p"
  by (simp add: flying_toggle_def Let_def)

lemma flying_toggle_jump:
  "\<not> flying p \<Longrightarrow> K_SPACE i \<Longrightarrow> \<not> space_pressed_prev p \<Longrightarrow>
   300 \<le> current_time i - last_space_press p \<Longrightarrow> is_on_ground p \<Longrightarrow>
     \<not> flying (flying_toggle i sf p) \<and> velocity_y (flying_toggle i sf p) = jump_force p * sf \<and>
     last_space_press (flying_toggle i sf p) = current_time i \<and>
     \<not> is_on_ground (flying_toggle i sf p)"
  by (simp add: flying_toggle_def Let_def)

lemma gravity_step_flying:
  "flying p \<Longrightarrow> gravity_step W dt ws sf p = p"
  by (simp add: gravity_step_def)

lemma gravity_step_falling:
  "\<not> flying p \<Longrightarrow>
     velocity_y (gravity_step W dt ws sf p) =
       (if height p + (velocity_y p - gravity p * dt * 60) * dt * 60 * sf < floor_level W ws p
        then 0 else velocity_y p - gravity p * dt * 60) \<and>
     is_on_ground (gravity_step W dt ws sf p) =
       (height p + (velocity_y p - gravity p * dt * 60) * dt * 60 * sf < floor_level W ws p) \<and>
     height (gravity_step W dt ws sf p) =
       (if height p + (velocity_y p - gravity p * dt * 60) * dt * 60 * sf < floor_level W ws p
        then floor_level W ws p else height p + (velocity_y p - gravity p * dt * 60) * dt * 60 * sf)"
  by (simp add: gravity_step_def Let_def floor_level_def)

lemma run_player_no_press:
  assumes "\<forall>k<n. \<not> K_SPACE (fst (ticks k))"
    and "run_player W ticks n (create_player W) = Inr p"
  shows "\<not> flying p \<and> \<not> space_pressed_prev p \<and> last_space_press p = 0"
  using assms
proof (induction n arbitrary: p)
  case 0
  then show ?case by auto
next
  case (Suc n)
  from Suc.prems(2) obtain q where q: "run_player W ticks n (create_player W) = Inr q"
    and p: "update_player W q (fst (ticks n)) (fst (snd (ticks n))) (snd (snd (ticks n))) = Inr p"
    by (auto split: sum.splits)
  from Suc.IH [OF _ q] Suc.prems(1)
  have IH: "\<not> flying q" "\<not> space_pressed_prev q" "last_space_press q = 0" by auto
  from Suc.prems(1) have rel: "\<not> K_SPACE (fst (ticks n))" by simp
  from p IH show ?case
    by (simp add: update_player_Inr_iff flying_toggle_released [OF rel] rel)
qed

text \<open>
  Claim C10. \<^verbatim>\<open>create_player\<close> sets \<^verbatim>\<open>last_space_press\<close> to 0. After any number of ticks in
  which the jump key was never down, a tick with the jump key down whose clock reading is
  below 300 ms takes the double-tap branch: \<^verbatim>\<open>update_player\<close> returns with \<^verbatim>\<open>flying\<close> true and
  \<^verbatim>\<open>velocity_y\<close> equal to 0 (no jump impulse), and \<^verbatim>\<open>is_on_ground\<close> as it was.
\<close>

theorem first_press_toggles_flying:
  assumes quiet: "\<forall>k<n. \<not> K_SPACE (fst (ticks k))"
    and start: "run_player W ticks n (create_player W) = Inr p"
    and press: "K_SPACE i" and early: "current_time i < 300" and ws: "ws \<noteq> 0"
  shows "\<exists>p'. update_player W p i dt ws = Inr p' \<and> flying p' \<and> velocity_y p' = 0 \<and>
              is_on_ground p' = is_on_ground p"
proof -
  let ?q = "before_toggle W p i dt ws"
  from run_player_no_press [OF quiet start]
  have p: "\<not> flying p" "\<not> space_pressed_prev p" "last_space_press p = 0" by auto
  have "flying (flying_toggle i (1 / ws) ?q) \<and> velocity_y (flying_toggle i (1 / ws) ?q) = 0 \<and>
     last_space_press (flying_toggle i (1 / ws) ?q) = current_time i \<and>
     is_on_ground (flying_toggle i (1 / ws) ?q) = is_on_ground ?q"
    by (rule flying_toggle_double_tap) (use p press early in simp_all)
  then show ?thesis
    by (simp add: update_player_blocks [OF ws] gravity_step_flying)
qed

theorem first_press_toggles_flying_witness:
  "flying (projr (update_player flat_world
       (projr (run_player flat_world idle_ticks 2 (create_player flat_world)))
       (jump_key 100) (1 / 60) 1)) \<and>
   velocity_y (projr (update_player flat_world
       (projr (run_player flat_world idle_ticks 2 (create_player flat_world)))
       (jump_key 100) (1 / 60) 1)) = 0"
proof -
  obtain p where run: "run_player flat_world idle_ticks 2 (create_player flat_world) = Inr p"
    by (simp add: numeral_2_eq_2 idle_ticks_def update_player_blocks)
  have quiet: "\<forall>k<2. \<not> K_SPACE (fst (idle_ticks k))"
    by (simp add: idle_ticks_def)
  from first_press_toggles_flying [OF quiet run, of "jump_key 100" 1 "1 / 60"]
  obtain p' where "update_player flat_world p (jump_key 100) (1 / 60) 1 = Inr p'"
    "flying p'" "velocity_y p' = 0" by auto
  with run show ?thesis by simp
qed



lemma floor_level_later_blocks [simp]:
  "floor_level W ws (gravity_step W' dt ws' sf p) = floor_level W ws p"
  "floor_level W ws (flying_toggle i sf p) = floor_level W ws p"
  by (simp_all add: floor_level_def)

lemma update_player_double_tap:
  assumes "ws \<noteq> 0" "\<not> flying p" "K_SPACE i" "\<not> space_pressed_prev p"
    "current_time i - last_space_press p < 300"
    and run: "update_player W p i dt ws = Inr p'"
  shows "flying p' \<and> velocity_y p' = 0 \<and> is_on_ground p' = is_on_ground p \<and>
         last_space_press p' = current_time i \<and> space_pressed_prev p'"
proof -
  let ?q = "before_toggle W p i dt ws"
  have "flying (flying_toggle i (1 / ws) ?q) \<and> velocity_y (flying_toggle i (1 / ws) ?q) = 0 \<and>
     last_space_press (flying_toggle i (1 / ws) ?q) = current_time i \<and>
     is_on_ground (flying_toggle i (1 / ws) ?q) = is_on_ground ?q"
    by (rule flying_toggle_double_tap) (use assms in simp_all)
  with run assms(3) show ?thesis
    by (simp add: update_player_Inr_iff gravity_step_flying)
qed

lemma update_player_jump:
  assumes "ws \<noteq> 0" "\<not> flying p" "K_SPACE i" "\<not> space_pressed_prev p"
    "300 \<le> current_time i - last_space_press p" "is_on_ground p"
    and run: "update_player W p i dt ws = Inr p'"
  shows "\<not> flying p' \<and> last_space_press p' = current_time i \<and> space_pressed_prev p' \<and>
         velocity_y (flying_toggle i (1 / ws) (before_toggle W p i dt ws)) = jump_force p / ws \<and>
         \<not> is_on_ground (flying_toggle i (1 / ws) (before_toggle W p i dt ws)) \<and>
         (if height (before_toggle W p i dt ws)
               + (jump_force p / ws - gravity p * dt * 60) * dt * 60 * (1 / ws)
             < floor_level W ws p'
          then velocity_y p' = 0 \<and> is_on_ground p'
          else velocity_y p' = jump_force p / ws - gravity p * dt * 60 \<and> \<not> is_on_ground p')"
proof -
  let ?q = "before_toggle W p i dt ws"
  let ?t = "flying_toggle i (1 / ws) ?q"
  have t: "\<not> flying ?t \<and> velocity_y ?t = jump_force ?q * (1 / ws) \<and>
     last_space_press ?t = current_time i \<and> \<not> is_on_ground ?t"
    by (rule flying_toggle_jump) (use assms in simp_all)
  from run have p': "p' = gravity_step W dt ws (1 / ws) ?t"
    by (simp add: update_player_Inr_iff)
  from t have nf: "\<not> flying ?t" by simp
  from gravity_step_falling [OF nf, of W dt ws "1 / ws"] t assms(3) show ?thesis
    unfolding p' by simp
qed

lemma update_player_jump_rising:
  assumes "0 < ws" "\<not> flying p" "K_SPACE i" "\<not> space_pressed_prev p"
    "300 \<le> current_time i - last_space_press p" "is_on_ground p"
    and run: "update_player W p i dt ws = Inr p'"
    and dt: "0 \<le> dt" and rise: "gravity p * dt * 60 \<le> jump_force p / ws"
  shows "velocity_y p' = jump_force p / ws - gravity p * dt * 60 \<and> \<not> is_on_ground p'"
proof -
  let ?q = "before_toggle W p i dt ws"
  let ?vy = "jump_force p / ws - gravity p * dt * 60"
  from assms(1) have ws: "ws \<noteq> 0" by simp
  have "floor_level W ws p' = floor_level W ws ?q"
    by (rule floor_level_pos) (use run in \<open>simp add: update_player_Inr_iff\<close>)
  then have "floor_level W ws p' \<le> height ?q"
    using before_toggle_floor [of W ws p i dt] by simp
  moreover have "0 \<le> ?vy * dt * 60 * (1 / ws)"
    using rise dt assms(1) by simp
  ultimately have "\<not> height ?q + ?vy * dt * 60 * (1 / ws) < floor_level W ws p'"
    by linarith
  with update_player_jump [OF ws assms(2-6) run] show ?thesis by simp
qed

lemma update_player_no_edge:
  assumes "\<not> K_SPACE i \<or> space_pressed_prev p"
    and run: "update_player W p i dt ws = Inr p'"
  shows "flying p' = flying p \<and> last_space_press p' = last_space_press p \<and>
         space_pressed_prev p' = K_SPACE i \<and>
         velocity_y (flying_toggle i (1 / ws) (before_toggle W p i dt ws)) = velocity_y p"
proof -
  let ?q = "before_toggle W p i dt ws"
  have "flying (flying_toggle i (1 / ws) ?q) = flying ?q \<and>
     last_space_press (flying_toggle i (1 / ws) ?q) = last_space_press ?q \<and>
     velocity_y (flying_toggle i (1 / ws) ?q) = velocity_y ?q"
    using assms(1) flying_toggle_released [of i "1 / ws" ?q] flying_toggle_held [of ?q i "1 / ws"]
    by auto
  with run show ?thesis
    by (simp add: update_player_Inr_iff)
qed

text \<open>
  Claim C2, as amended; \<^verbatim>\<open>velocity_y\<close> is the vertical velocity of the jump. For a player that
  is not flying and a non-zero world scale, \<^verbatim>\<open>update_player\<close> returns, and:
  \<^item> on a down-edge of the jump key less than 300 ms after the recorded previous press, the
    returned player is flying with \<^verbatim>\<open>velocity_y = 0\<close>, grounded as before, and the press time is
    recorded: no jump impulse on that tick;
  \<^item> on a down-edge at least 300 ms after the previous press, when grounded, the toggle block
    sets \<^verbatim>\<open>velocity_y = jump_force / world_scale\<close> and clears \<^verbatim>\<open>is_on_ground\<close> at once, whether
    or not a second press follows; the gravity block of the same tick then subtracts
    \<^verbatim>\<open>gravity * dt * 60\<close>, so the call returns with
    \<^verbatim>\<open>velocity_y = jump_force / world_scale - gravity * dt * 60\<close> and not grounded, unless the
    eye height after that step is below the floor, where it returns grounded with
    \<^verbatim>\<open>velocity_y = 0\<close>; the first case is the one that applies whenever the scale is positive,
    \<^verbatim>\<open>dt\<close> is non-negative and \<^verbatim>\<open>gravity * dt * 60\<close> does not exceed the impulse;
  \<^item> on a tick without a down-edge (key up, or key still held) the toggle block leaves
    \<^verbatim>\<open>velocity_y\<close> alone: the impulse is applied once per press.
\<close>

theorem jump_key_edge:
  assumes ws: "ws \<noteq> 0" and nf: "\<not> flying p"
  shows "\<exists>p'. update_player W p i dt ws = Inr p' \<and>
     (K_SPACE i \<and> \<not> space_pressed_prev p \<and> current_time i - last_space_press p < 300 \<longrightarrow>
        flying p' \<and> velocity_y p' = 0 \<and> is_on_ground p' = is_on_ground p \<and>
        last_space_press p' = current_time i) \<and>
     (K_SPACE i \<and> \<not> space_pressed_prev p \<and> 300 \<le> current_time i - last_space_press p \<and>
      is_on_ground p \<longrightarrow>
        \<not> flying p' \<and> last_space_press p' = current_time i \<and>
        velocity_y (flying_toggle i (1 / ws) (before_toggle W p i dt ws)) = jump_force p / ws \<and>
        \<not> is_on_ground (flying_toggle i (1 / ws) (before_toggle W p i dt ws)) \<and>
        (if height (before_toggle W p i dt ws)
              + (jump_force p / ws - gravity p * dt * 60) * dt * 60 * (1 / ws)
            < floor_level W ws p'
         then velocity_y p' = 0 \<and> is_on_ground p'
         else velocity_y p' = jump_force p / ws - gravity p * dt * 60 \<and> \<not> is_on_ground p') \<and>
        (0 < ws \<and> 0 \<le> dt \<and> gravity p * dt * 60 \<le> jump_force p / ws \<longrightarrow>
           velocity_y p' = jump_force p / ws - gravity p * dt * 60 \<and> \<not> is_on_ground p')) \<and>
     (\<not> K_SPACE i \<or> space_pressed_prev p \<longrightarrow>
        \<not> flying p' \<and> last_space_press p' = last_space_press p \<and>
        velocity_y (flying_toggle i (1 / ws) (before_toggle W p i dt ws)) = velocity_y p)"
proof -
  obtain p' where run: "update_player W p i dt ws = Inr p'"
    by (simp add: update_player_blocks [OF ws])
  have A: "flying p' \<and> velocity_y p' = 0 \<and> is_on_ground p' = is_on_ground p \<and>
        last_space_press p' = current_time i"
    if "K_SPACE i" "\<not> space_pressed_prev p" "current_time i - last_space_press p < 300"
    using update_player_double_tap [OF ws nf that run] by simp
  have B: "\<not> flying p' \<and> last_space_press p' = current_time i \<and>
        velocity_y (flying_toggle i (1 / ws) (before_toggle W p i dt ws)) = jump_force p / ws \<and>
        \<not> is_on_ground (flying_toggle i (1 / ws) (before_toggle W p i dt ws)) \<and>
        (if height (before_toggle W p i dt ws)
              + (jump_force p / ws - gravity p * dt * 60) * dt * 60 * (1 / ws)
            < floor_level W ws p'
         then velocity_y p' = 0 \<and> is_on_ground p'
         else velocity_y p' = jump_force p / ws - gravity p * dt * 60 \<and> \<not> is_on_ground p')"
    if "K_SPACE i" "\<not> space_pressed_prev p" "300 \<le> current_time i - last_space_press p"
      "is_on_ground p"
    using update_player_jump [OF ws nf that run] by simp
  have C: "velocity_y p' = jump_force p / ws - gravity p * dt * 60 \<and> \<not> is_on_ground p'"
    if "K_SPACE i" "\<not> space_pressed_prev p" "300 \<le> current_time i - last_space_press p"
      "is_on_ground p" "0 < ws" "0 \<le> dt" "gravity p * dt * 60 \<le> jump_force p / ws"
    using update_player_jump_rising [OF that(5) nf that(1-4) run that(6,7)] .
  have D: "\<not> flying p' \<and> last_space_press p' = last_space_press p \<and>
        velocity_y (flying_toggle i (1 / ws) (before_toggle W p i dt ws)) = velocity_y p"
    if "\<not> K_SPACE i \<or> space_pressed_prev p"
    using update_player_no_edge [OF that run] nf by simp
  from run A B C D show ?thesis by blast
qed

lemma run_player_step:
  "run_player W ticks n p = Inr q \<Longrightarrow>
     run_player W ticks (Suc n) p
       = update_player W q (fst (ticks n)) (fst (snd (ticks n))) (snd (snd (ticks n)))"
  by simp

text \<open>
  Claim C2 as stated fails on the first press of a double tap. From the grounded start, the
  jump key goes down at 1000 ms, up, and down again at 1100 ms. The first press already
  applies the impulse: \<^verbatim>\<open>velocity_y\<close> goes from 0 to \<open>12 / 1 - 0.9 * (1 / 60) * 60\<close>, the impulse
  less one tick of gravity (so not \<^verbatim>\<open>jump_force / world_scale\<close> either on return); the second
  press, 100 ms later, switches flying on.
\<close>

theorem jump_key_edge_counterexample:
  "velocity_y (create_player flat_world) = 0 \<and>
   velocity_y (projr (run_player flat_world double_tap_ticks 1 (create_player flat_world)))
     = 12 / 1 - 0.9 * (1 / 60) * 60 \<and>
   \<not> flying (projr (run_player flat_world double_tap_ticks 1 (create_player flat_world))) \<and>
   flying (projr (run_player flat_world double_tap_ticks 3 (create_player flat_world)))"
proof -
  let ?p0 = "create_player flat_world"
  obtain p1 where u1: "update_player flat_world ?p0 (jump_key 1000) (1 / 60) 1 = Inr p1"
    by (simp add: update_player_blocks)
  obtain p2 where u2: "update_player flat_world p1 (idle 1050) (1 / 60) 1 = Inr p2"
    by (simp add: update_player_blocks)
  obtain p3 where u3: "update_player flat_world p2 (jump_key 1100) (1 / 60) 1 = Inr p3"
    by (simp add: update_player_blocks)
  have r1: "run_player flat_world double_tap_ticks (Suc 0) ?p0 = Inr p1"
    using u1 by (simp add: double_tap_ticks_def)
  have r2: "run_player flat_world double_tap_ticks (Suc (Suc 0)) ?p0 = Inr p2"
    by (subst run_player_step [OF r1]) (use u2 in \<open>simp add: double_tap_ticks_def\<close>)
  have r3: "run_player flat_world double_tap_ticks (Suc (Suc (Suc 0))) ?p0 = Inr p3"
    by (subst run_player_step [OF r2]) (use u3 in \<open>simp add: double_tap_ticks_def\<close>)
  have j: "velocity_y p1 = 12 / 1 - 0.9 * (1 / 60) * 60 \<and> \<not> is_on_ground p1"
    using update_player_jump_rising [OF _ _ _ _ _ _ u1] by simp
  have f1: "\<not> flying p1 \<and> last_space_press p1 = 1000"
    using update_player_jump [OF _ _ _ _ _ _ u1] by simp
  have f2: "\<not> flying p2 \<and> last_space_press p2 = 1000 \<and> \<not> space_pressed_prev p2"
    using update_player_no_edge [OF _ u2] f1 by simp
  have f3: "flying p3"
    using update_player_double_tap [OF _ _ _ _ _ u3] f2 by simp
  have n1: "run_player flat_world double_tap_ticks 1 ?p0 = Inr p1"
    using r1 by simp
  have n3: "run_player flat_world double_tap_ticks 3 ?p0 = Inr p3"
    using r3 by (simp add: numeral_3_eq_3)
  from j f1 f3 show ?thesis
    unfolding n1 n3 by simp
qed

theorem jump_key_edge_witness:
  "flying (projr (update_player flat_world ((create_player flat_world)\<lparr> last_space_press := 1000 \<rparr>)
                   (jump_key 1100) (1 / 60) 1)) \<and>
   velocity_y (projr (update_player flat_world (create_player flat_world) (jump_key 1000) (1 / 60) 1))
     = 12 / 1 - 0.9 * (1 / 60) * 60 \<and>
   is_on_ground (projr (update_player flat_world (create_player flat_world) (jump_key 1000) (1 / 60) 1))
     = False \<and>
   flying (projr (update_player flat_world ((create_player flat_world)\<lparr> space_pressed_prev := True \<rparr>)
                   (jump_key 1000) (1 / 60) 1)) = False"
proof -
  have a: "flying (projr (update_player flat_world
             ((create_player flat_world)\<lparr> last_space_press := 1000 \<rparr>) (jump_key 1100) (1 / 60) 1))"
    using jump_key_edge [of 1 "(create_player flat_world)\<lparr> last_space_press := 1000 \<rparr>"
        flat_world "jump_key 1100" "1 / 60"]
    by auto
  have b: "velocity_y (projr (update_player flat_world (create_player flat_world)
              (jump_key 1000) (1 / 60) 1)) = 12 / 1 - 0.9 * (1 / 60) * 60 \<and>
     is_on_ground (projr (update_player flat_world (create_player flat_world)
              (jump_key 1000) (1 / 60) 1)) = False"
    using jump_key_edge [of 1 "create_player flat_world" flat_world "jump_key 1000" "1 / 60"]
    by auto
  have c: "flying (projr (update_player flat_world
             ((create_player flat_world)\<lparr> space_pressed_prev := True \<rparr>) (jump_key 1000) (1 / 60) 1))
           = False"
    using jump_key_edge [of 1 "(create_player flat_world)\<lparr> space_pressed_prev := True \<rparr>"
        flat_world "jump_key 1000" "1 / 60"]
    by auto
  from a b c show ?thesis by blast
qed


section \<open>Velocity decay\<close>

lemma update_player_velocity_unclamped:
  assumes "update_player W p i dt ws = Inr p'" and "no_clamp W (moved p i dt ws)"
  shows "vel p' = velocity_step (\<lambda>x. x) (input_vec i) dt (1 / ws) (vel p)"
proof -
  from update_player_pos_vel [OF assms(1)] clamp_position_no_clamp [OF assms(2)]
  have "vel p' = vel (moved p i dt ws)" by simp
  then show ?thesis
    by (simp add: moved_pos_vel velocity_step_def damping_factor_def Let_def)
qed

lemma wrap_world_fields [simp]: "INFINITE_MAP wrap_world = True"
  by (simp add: wrap_world_def)



lemma f64_ulp_minus [simp]: "f64_ulp (- x) = f64_ulp x"
  by (simp add: f64_ulp_def f64_exponent_def)




























text \<open>The literal \<^verbatim>\<open>0.8\<close> as a float64: the number with bit pattern \<^verbatim>\<open>0x3FE999999999999A\<close>.\<close>

lemma round64_DAMPING: "round64 DAMPING = 7205759403792794 / 2 ^ 53"
proof -
  have "- 1 \<le> log 2 \<bar>4 / 5 :: real\<bar>"
    by (subst le_log_iff) (simp_all add: powr_minus)
  moreover have "log 2 \<bar>4 / 5 :: real\<bar> < 0" by simp
  ultimately have "\<lfloor>log 2 \<bar>4 / 5 :: real\<bar>\<rfloor> = - 1"
    by (intro floor_unique) simp_all
  then have "f64_exponent (4 / 5) = - 1" by (simp add: f64_exponent_def f64_emin_def)
  then have u: "f64_ulp (4 / 5) = 1 / 2 ^ 53" by (simp add: f64_ulp_def powr_minus)
  have fl: "\<lfloor>(4 / 5 :: real) * 2 ^ 53\<rfloor> = 7205759403792793"
    by (intro floor_unique) simp_all
  have "round_half_even ((4 / 5) * 2 ^ 53) = 7205759403792794"
    unfolding round_half_even_def Let_def fl by simp
  then show ?thesis
    by (simp add: round64_def DAMPING_def u)
qed




lemma min_subnormal_pos [simp]: "0 < min_subnormal" "0 \<le> min_subnormal" "min_subnormal \<noteq> 0"
  by (simp_all add: min_subnormal_def)








section \<open>The draw distance\<close>

lemma update_app_draw_distance:
  "update_app W ap i = Inr ap' \<Longrightarrow>
     app_draw_distance ap' = app_draw_distance (tune_parameters i ap)"
  by (auto simp: update_app_def Let_def split: sum.splits prod.splits)

lemma tune_parameters_draw_distance:
  "app_draw_distance (tune_parameters i ap) =
     (let d = (if K_PAGEUP i then min 3000 (app_draw_distance ap + 50) else app_draw_distance ap)
      in if K_PAGEDOWN i then max 500 (d - 50) else d)"
  by (simp add: tune_parameters_def Let_def)

lemma tune_parameters_keeps_range:
  "500 \<le> app_draw_distance ap \<Longrightarrow> app_draw_distance ap \<le> 3000 \<Longrightarrow>
     500 \<le> app_draw_distance (tune_parameters i ap) \<and>
     app_draw_distance (tune_parameters i ap) \<le> 3000"
  by (auto simp: tune_parameters_draw_distance Let_def)

lemma idle_tuning_keys [simp]:
  "K_PAGEUP (idle t) = False" "K_PAGEDOWN (idle t) = False"
  by (simp_all add: idle_def)

text \<open>
  Claim C6 does not hold from startup. \<^verbatim>\<open>init_app\<close> stores \<^verbatim>\<open>DRAW_DISTANCE = 5000\<close>, above the
  upper bound 3000 of the clamps in \<^verbatim>\<open>update_app\<close>, and the clamps only act while a key is held:
  with no key held the value stays 5000, and with only the decrease key held it becomes 4950.
  (By \<open>tune_parameters_keeps_range\<close>, a value inside the range stays inside.)
\<close>

theorem startup_draw_distance:
  "app_draw_distance (init_app W sky) = 5000 \<and>
   app_draw_distance (tune_parameters (idle t) (init_app W sky)) = 5000 \<and>
   app_draw_distance (tune_parameters ((idle t)\<lparr> K_PAGEDOWN := True \<rparr>) (init_app W sky)) = 4950 \<and>
   \<not> (5000 :: int) \<le> 3000"
  by (simp add: tune_parameters_draw_distance Let_def) (simp add: init_app_def DRAW_DISTANCE_def)

section \<open>The breathing effect\<close>

text \<open>
  Claim C8. Whenever \<^verbatim>\<open>update_voxel_render\<close> returns, the player it leaves behind is the player
  it was given, field for field, and the frame it stores is what \<^verbatim>\<open>ray_casting\<close> returns when
  called on the composited sky with the eye height
  \<open>height + BREATH_AMPLITUDE * sin (current_time * BREATH_FREQUENCY)\<close> and with the player's own
  position, angle and pitch.
\<close>

theorem breathing_effect:
  assumes "update_voxel_render W vr p width hgt draw_dist now ws = Inr (vr', p')"
  shows "p' = p \<and>
         ray_casting W
           (vr_sky vr (py_int (angle p / (2 * pi) * real width) mod vr_sky_width vr) width hgt)
           \<lparr> player_pos = pos p, player_angle = angle p,
             player_height = height p + BREATH_AMPLITUDE * sin (real_of_int now * BREATH_FREQUENCY),
             player_pitch = pitch p, screen_width = width, screen_height = hgt,
             delta_angle = vr_delta_angle vr, ray_distance = draw_dist,
             h_fov = vr_h_fov vr, scale_height = vr_scale_height vr, world_scale = ws \<rparr>
           = Inr (vr_screen_array vr')"
  using assms by (auto simp: update_voxel_render_def Let_def split: sum.splits)

lemma upto_1_1: "[1 .. (2::int) - 1] = [1]"
  by (simp add: upto.simps)

lemma render_one_sample:
  "\<exists>vr'. update_voxel_render flat_world ((create_voxel_render black_sky 1 450)\<lparr> vr_h_fov := 0 \<rparr>)
      ((create_player flat_world)\<lparr> angle := 0 \<rparr>) 1 450 2 250 1
    = Inr (vr', (create_player flat_world)\<lparr> angle := 0 \<rparr>)"
  apply (simp add: update_voxel_render_def Let_def ray_casting_def ray_casting_run_def upto_1_1)
  apply (simp add: create_voxel_render_def py_int_def sample_xy_def Let_def)
  apply (simp add: depth_step_def depth_corr_def Let_def)
  done

theorem breathing_effect_witness:
  "snd (projr (update_voxel_render flat_world ((create_voxel_render black_sky 1 450)\<lparr> vr_h_fov := 0 \<rparr>)
      ((create_player flat_world)\<lparr> angle := 0 \<rparr>) 1 450 2 250 1))
    = (create_player flat_world)\<lparr> angle := 0 \<rparr>"
proof -
  from render_one_sample obtain vr' p'
    where run: "update_voxel_render flat_world ((create_voxel_render black_sky 1 450)\<lparr> vr_h_fov := 0 \<rparr>)
      ((create_player flat_world)\<lparr> angle := 0 \<rparr>) 1 450 2 250 1 = Inr (vr', p')"
    by blast
  from breathing_effect [OF run] run show ?thesis by simp
qed


section \<open>The raycaster: lemmas\<close>

text \<open>What one iteration of the depth loop does to the state.\<close>

lemma depth_step_later:
  assumes "depth_corr a ra d \<noteq> 0" "first_contact st"
  shows "depth_step W a n ra d xy st =
     (let hos = (if height_on_screen W a ra d xy < 0 then 0 else height_on_screen W a ra d xy)
      in if hos < y_buffer st ! n
         then Inr (st\<lparr> painted := painted st @
                          map (\<lambda>screen_y. (int n, screen_y, base_color_map W (fst xy) (snd xy)))
                              [hos .. y_buffer st ! n - 1],
                       y_buffer := (y_buffer st)[n := hos],
                       sampled := sampled st @ [xy],
                       horizon_log := horizon_log st @ [(n, (y_buffer st)[n := hos] ! n)] \<rparr>)
         else Inr (st\<lparr> sampled := sampled st @ [xy],
                       horizon_log := horizon_log st @ [(n, y_buffer st ! n)] \<rparr>))"
  using assms by (simp add: depth_step_def Let_def)

lemma depth_step_first:
  assumes "depth_corr a ra d \<noteq> 0" "\<not> first_contact st" "n < length (y_buffer st)"
  shows "depth_step W a n ra d xy st =
     Inr (st\<lparr> y_buffer := (y_buffer st)[n := min (height_on_screen W a ra d xy) (screen_height a)],
              first_contact := True,
              sampled := sampled st @ [xy],
              horizon_log := horizon_log st @
                 [(n, min (height_on_screen W a ra d xy) (screen_height a))] \<rparr>)"
proof -
  have "\<not> (if height_on_screen W a ra d xy < 0 then 0 else height_on_screen W a ra d xy)
          < min (height_on_screen W a ra d xy) (screen_height a)"
    by simp
  with assms show ?thesis
    by (simp add: depth_step_def Let_def)
qed


lemma depth_step_nonzero: "depth_step W a n ra d xy st = Inr st' \<Longrightarrow> depth_corr a ra d \<noteq> 0"
  by (auto simp: depth_step_def split: if_splits)

lemma depth_step_effect:
  assumes step: "depth_step W a n ra d xy st = Inr st'" and n: "n < length (y_buffer st)"
  shows "\<exists>y' rows.
     y_buffer st' = (y_buffer st)[n := y'] \<and> first_contact st' \<and>
     sampled st' = sampled st @ [xy] \<and>
     horizon_log st' = horizon_log st @ [(n, y')] \<and>
     painted st' = painted st @ map (\<lambda>r. (int n, r, base_color_map W (fst xy) (snd xy))) rows \<and>
     y' \<le> (if first_contact st then y_buffer st ! n else screen_height a) \<and>
     distinct rows \<and>
     (\<forall>r \<in> set rows. 0 \<le> r \<and> y' \<le> r \<and>
         r < (if first_contact st then y_buffer st ! n else screen_height a)) \<and>
     (\<not> first_contact st \<longrightarrow>
         rows = [] \<and> y' = min (height_on_screen W a ra d xy) (screen_height a))"
proof -
  let ?h0 = "height_on_screen W a ra d xy"
  let ?H = "screen_height a"
  let ?hos = "if ?h0 < 0 then 0 else ?h0"
  note nz = depth_step_nonzero [OF step]
  show ?thesis
  proof (cases "first_contact st")
    case True
    note eq = depth_step_later [OF nz True, of W n xy]
    show ?thesis
    proof (cases "?hos < y_buffer st ! n")
      case paint: True
      from step eq paint n
      have st': "st' = st\<lparr> painted := painted st @
                          map (\<lambda>screen_y. (int n, screen_y, base_color_map W (fst xy) (snd xy)))
                              [?hos .. y_buffer st ! n - 1],
                       y_buffer := (y_buffer st)[n := ?hos],
                       sampled := sampled st @ [xy],
                       horizon_log := horizon_log st @ [(n, ?hos)] \<rparr>"
        by (simp add: Let_def)
      have rows: "\<forall>r \<in> set [?hos .. y_buffer st ! n - 1]. 0 \<le> r \<and> ?hos \<le> r \<and> r < y_buffer st ! n"
        by auto
      have le: "?hos \<le> y_buffer st ! n" using paint by simp
      show ?thesis
        apply (rule exI [of _ ?hos])
        apply (rule exI [of _ "[?hos .. y_buffer st ! n - 1]"])
        using True rows le by (simp add: st')
    next
      case keep: False
      from step eq keep
      have st': "st' = st\<lparr> sampled := sampled st @ [xy],
                       horizon_log := horizon_log st @ [(n, y_buffer st ! n)] \<rparr>"
        by (simp add: Let_def)
      show ?thesis
        apply (rule exI [of _ "y_buffer st ! n"])
        apply (rule exI [of _ "[]"])
        using True by (simp add: st')
    qed
  next
    case False
    from step depth_step_first [OF nz False n, of W xy]
    have st': "st' = st\<lparr> y_buffer := (y_buffer st)[n := min ?h0 ?H],
              first_contact := True,
              sampled := sampled st @ [xy],
              horizon_log := horizon_log st @ [(n, min ?h0 ?H)] \<rparr>"
      by simp
    show ?thesis
      apply (rule exI [of _ "min ?h0 ?H"])
      apply (rule exI [of _ "[]"])
      using False by (simp add: st')
  qed
qed


lemma column_log_append:
  "horizon_log st' = horizon_log st @ [(n, y)] \<Longrightarrow>
     column_log c st' = column_log c st @ (if c = n then [y] else [])"
  by (auto simp: column_log_def)

lemma map_cell_rows:
  "map cell (map (\<lambda>r. (int n, r, col)) rows) = map (\<lambda>r. (int n, r)) rows"
  by (simp add: cell_def)

lemma depth_step_invariants:
  assumes fr: "frame_inv a st" and col: "column_inv a n st"
    and step: "depth_step W a n ra d xy st = Inr st'"
  shows "frame_inv a st' \<and> column_inv a n st' \<and> first_contact st'"
proof -
  let ?H = "screen_height a"
  let ?yb = "y_buffer st ! n"
  let ?bound = "if first_contact st then ?yb else ?H"
  from fr have len: "length (y_buffer st) = screen_width a"
    and inf: "list_all (in_frame a) (painted st)"
    and dis: "distinct (map cell (painted st))"
    and srt: "\<And>c. sorted_wrt (\<ge>) (?H # column_log c st)"
    by (simp_all add: frame_inv_def)
  from col have n: "n < screen_width a" and yb: "?yb \<le> ?H"
    and old_rows: "\<And>w. w \<in> set (painted st) \<Longrightarrow> fst w = int n \<Longrightarrow>
                      first_contact st \<and> ?yb \<le> fst (snd w)"
    and old_log: "\<And>v. v \<in> set (column_log n st) \<Longrightarrow> first_contact st \<and> ?yb \<le> v"
    by (simp_all add: column_inv_def)
  from n len have n': "n < length (y_buffer st)" by simp
  from depth_step_effect [OF step n'] obtain y' rows where
    ybuf: "y_buffer st' = (y_buffer st)[n := y']" and fc: "first_contact st'"
    and lg: "horizon_log st' = horizon_log st @ [(n, y')]"
    and pt: "painted st' = painted st @ map (\<lambda>r. (int n, r, base_color_map W (fst xy) (snd xy))) rows"
    and y': "y' \<le> ?bound" and drows: "distinct rows"
    and rows: "\<And>r. r \<in> set rows \<Longrightarrow> 0 \<le> r \<and> y' \<le> r \<and> r < ?bound"
    by blast
  have bound: "?bound \<le> ?H" using yb by simp
  have y'n: "y_buffer st' ! n = y'" using ybuf n' by simp
  \<comment> \<open>the frame invariant\<close>
  have f1: "length (y_buffer st') = screen_width a" using ybuf len by simp
  have new_in: "in_frame a (int n, r, col)" if "r \<in> set rows" for r col
    using rows [OF that] bound n by (simp add: in_frame_def)
  have f2: "list_all (in_frame a) (painted st')"
    using inf by (simp add: pt list_all_iff ball_Un new_in)
  have disj: "cell w \<noteq> (int n, r)" if "w \<in> set (painted st)" "r \<in> set rows" for w r
  proof
    assume c: "cell w = (int n, r)"
    then have "fst w = int n" "fst (snd w) = r" by (simp_all add: cell_def)
    with old_rows [OF that(1)] have "first_contact st" "?yb \<le> r" by simp_all
    with rows [OF that(2)] show False by simp
  qed
  have f3: "distinct (map cell (painted st'))"
    unfolding pt map_append map_cell_rows distinct_append
    using dis drows disj disj [THEN not_sym] by (auto simp: distinct_map inj_on_def)
  have f4: "sorted_wrt (\<ge>) (?H # column_log c st')" for c
  proof (cases "c = n")
    case True
    have "column_log n st' = column_log n st @ [y']"
      using column_log_append [OF lg, of n] by simp
    moreover have "y' \<le> ?H" using y' bound by simp
    moreover have "y' \<le> v" if "v \<in> set (column_log n st)" for v
      using old_log [OF that] y' by simp
    ultimately show ?thesis
      using srt [of n] True by (auto simp: sorted_wrt_append)
  next
    case False
    then have "column_log c st' = column_log c st"
      using column_log_append [OF lg, of c] by simp
    with srt [of c] show ?thesis by simp
  qed
  have F: "frame_inv a st'"
    using f1 f2 f3 f4 by (simp add: frame_inv_def)
  \<comment> \<open>the invariant of the column\<close>
  have c2: "y_buffer st' ! n \<le> ?H" using y'n y' bound by simp
  have c3: "first_contact st' \<and> y_buffer st' ! n \<le> fst (snd w)"
    if "w \<in> set (painted st')" "fst w = int n" for w
  proof (cases "w \<in> set (painted st)")
    case True
    from old_rows [OF True that(2)] y' show ?thesis by (simp add: fc y'n)
  next
    case False
    with that(1) obtain r where "r \<in> set rows" "fst (snd w) = r" by (auto simp: pt)
    with rows [of r] show ?thesis by (simp add: fc y'n)
  qed
  have c4: "first_contact st' \<and> y_buffer st' ! n \<le> v" if "v \<in> set (column_log n st')" for v
  proof -
    from that column_log_append [OF lg, of n]
    have "v \<in> set (column_log n st) \<or> v = y'" by auto
    then show ?thesis
    proof
      assume "v \<in> set (column_log n st)"
      from old_log [OF this] y' show ?thesis by (simp add: fc y'n)
    next
      assume "v = y'"
      then show ?thesis by (simp add: fc y'n)
    qed
  qed
  have C: "column_inv a n st'"
    unfolding column_inv_def using n c2 c3 c4 by blast
  from F C fc show ?thesis by blast
qed

lemma depth_step_untouched:
  assumes "untouched a m st" "m \<noteq> n" "n < length (y_buffer st)"
    and step: "depth_step W a n ra d xy st = Inr st'"
  shows "untouched a m st'"
proof -
  from depth_step_effect [OF step assms(3)] obtain y' rows where
    ybuf: "y_buffer st' = (y_buffer st)[n := y']"
    and lg: "horizon_log st' = horizon_log st @ [(n, y')]"
    and pt: "painted st' = painted st @ map (\<lambda>r. (int n, r, base_color_map W (fst xy) (snd xy))) rows"
    by blast
  have "column_log m st' = column_log m st"
    using column_log_append [OF lg, of m] assms(2) by simp
  with assms(1,2) show ?thesis
    by (auto simp: untouched_def ybuf pt)
qed

lemma sample_xy_in_grid:
  assumes "INFINITE_MAP W \<longrightarrow> 0 < map_width W \<and> 0 < map_height W"
    and "sample_xy W a sin_a cos_a depth = Some xy"
  shows "in_grid W xy"
  using assms by (auto simp: sample_xy_def in_grid_def Let_def split: if_splits)

lemma first_contact_reset [simp]:
  "frame_inv a (st\<lparr> first_contact := False \<rparr>) = frame_inv a st"
  "untouched a m (st\<lparr> first_contact := False \<rparr>) = untouched a m st"
  by (simp_all add: frame_inv_def untouched_def column_log_def)

lemma untouched_column_inv:
  "untouched a n st \<Longrightarrow> n < screen_width a \<Longrightarrow> column_inv a n (st\<lparr> first_contact := False \<rparr>)"
  by (simp add: untouched_def column_inv_def column_log_def)

lemma march_invariants:
  assumes "frame_inv a st" "column_inv a n st" "\<forall>m \<in> M. m \<noteq> n \<and> untouched a m st"
  shows "frame_inv a (snd (march W a n ra ds st)) \<and>
         (\<forall>m \<in> M. untouched a m (snd (march W a n ra ds st)))"
  using assms
proof (induction ds arbitrary: st)
  case Nil
  then show ?case by simp
next
  case (Cons d ds)
  show ?case
  proof (cases "sample_xy W a (sin ra) (cos ra) d")
    case None
    with Cons.prems show ?thesis by simp
  next
    case (Some xy)
    show ?thesis
    proof (cases "depth_step W a n ra d xy st")
      case (Inl e)
      with Some Cons.prems show ?thesis by simp
    next
      case (Inr st')
      from Cons.prems(1,2) have len: "n < length (y_buffer st)"
        by (simp add: frame_inv_def column_inv_def)
      from depth_step_invariants [OF Cons.prems(1,2) Inr]
      have inv: "frame_inv a st'" "column_inv a n st'" by simp_all
      have rest: "\<forall>m \<in> M. m \<noteq> n \<and> untouched a m st'"
        using Cons.prems(3) depth_step_untouched [OF _ _ len Inr] by blast
      from Cons.IH [OF inv rest] Some Inr show ?thesis by simp
    qed
  qed
qed

lemma depth_step_sampled_eq:
  "depth_step W a n ra d xy st = Inr st' \<Longrightarrow> sampled st' = sampled st @ [xy]"
  by (auto simp: depth_step_def Let_def split: if_splits)

lemma march_sampled:
  assumes "INFINITE_MAP W \<longrightarrow> 0 < map_width W \<and> 0 < map_height W"
    and "list_all (in_grid W) (sampled st)"
  shows "list_all (in_grid W) (sampled (snd (march W a n ra ds st)))"
  using assms(2)
proof (induction ds arbitrary: st)
  case Nil
  then show ?case by simp
next
  case (Cons d ds)
  show ?case
  proof (cases "sample_xy W a (sin ra) (cos ra) d")
    case None
    with Cons.prems show ?thesis by simp
  next
    case (Some xy)
    note grid = sample_xy_in_grid [OF assms(1) Some]
    show ?thesis
    proof (cases "depth_step W a n ra d xy st")
      case (Inl e)
      with Some Cons.prems show ?thesis by simp
    next
      case (Inr st')
      from depth_step_sampled_eq [OF Inr] Cons.prems grid
      have "list_all (in_grid W) (sampled st')" by simp
      from Cons.IH [OF this] Some Inr show ?thesis by simp
    qed
  qed
qed

lemma cast_columns_invariants:
  assumes "frame_inv a st" "distinct ns" "\<forall>m \<in> set ns. m < screen_width a \<and> untouched a m st"
  shows "frame_inv a (snd (cast_columns W a ns ra st))"
  using assms
proof (induction ns arbitrary: ra st)
  case Nil
  then show ?case by simp
next
  case (Cons n ns)
  let ?st0 = "st\<lparr> first_contact := False \<rparr>"
  let ?m = "march W a n ra [1 .. ray_distance a - 1] ?st0"
  from Cons.prems have fr: "frame_inv a ?st0" by simp
  from Cons.prems have col: "column_inv a n ?st0"
    by (simp add: untouched_column_inv)
  from Cons.prems have rest: "\<forall>m \<in> set ns. m \<noteq> n \<and> untouched a m ?st0"
    by auto
  from march_invariants [OF fr col rest, of W ra "[1 .. ray_distance a - 1]"]
  have inv: "frame_inv a (snd ?m)" "\<forall>m \<in> set ns. untouched a m (snd ?m)"
    by simp_all
  show ?case
  proof (cases "fst ?m")
    case None
    from Cons.prems inv(2) have "\<forall>m \<in> set ns. m < screen_width a \<and> untouched a m (snd ?m)"
      by simp
    from Cons.IH [OF inv(1) _ this, of "ra + delta_angle a"] Cons.prems(2) None
    show ?thesis by (simp add: split_beta)
  next
    case (Some e)
    with inv(1) show ?thesis by (simp add: split_beta)
  qed
qed

lemma cast_columns_sampled:
  assumes "INFINITE_MAP W \<longrightarrow> 0 < map_width W \<and> 0 < map_height W"
    and "list_all (in_grid W) (sampled st)"
  shows "list_all (in_grid W) (sampled (snd (cast_columns W a ns ra st)))"
  using assms(2)
proof (induction ns arbitrary: ra st)
  case Nil
  then show ?case by simp
next
  case (Cons n ns)
  let ?m = "march W a n ra [1 .. ray_distance a - 1] (st\<lparr> first_contact := False \<rparr>)"
  from Cons.prems have "list_all (in_grid W) (sampled (st\<lparr> first_contact := False \<rparr>))" by simp
  from march_sampled [OF assms(1) this, of a n ra "[1 .. ray_distance a - 1]"]
  have s: "list_all (in_grid W) (sampled (snd ?m))" .
  show ?case
  proof (cases "fst ?m")
    case None
    from Cons.IH [OF s, of "ra + delta_angle a"] None show ?thesis by (simp add: split_beta)
  next
    case (Some e)
    with s show ?thesis by (simp add: split_beta)
  qed
qed

lemma ray_casting_run_frame_inv: "frame_inv a (snd (ray_casting_run W a))"
  unfolding ray_casting_run_def
  by (rule cast_columns_invariants)
     (simp_all add: frame_inv_def untouched_def column_log_def)

section \<open>Horizon and painting\<close>

text \<open>
  Claim C3. In every render call, for every column \<open>c\<close>, the values of \<^verbatim>\<open>y_buffer[c]\<close> at the
  end of the successive iterations of that column's depth loop, preceded by the initial value
  \<^verbatim>\<open>screen_height\<close>, form a non-increasing sequence; and no pixel (column, row) is written
  twice during the call.
\<close>

theorem horizon_monotone:
  "(\<forall>c. sorted_wrt (\<ge>) (screen_height a # column_log c (snd (ray_casting_run W a)))) \<and>
   distinct (map cell (painted (snd (ray_casting_run W a))))"
  using ray_casting_run_frame_inv [of a W] by (simp add: frame_inv_def)

text \<open>
  Claim C9. For every position, angle, height and pitch (all real), and whether or not the call
  ends by the division error, every write of \<^verbatim>\<open>ray_casting\<close> has its column in
  \<open>[0, screen_width)\<close> and its row in \<open>[0, screen_height)\<close>, and every index pair used on the
  terrain arrays lies inside the grid. In wrap mode the grid must have positive dimensions (as
  any loaded image has); in clamp mode the march breaks before an outside pair is used. The
  colour read of a painted span uses the index pair already logged for the height read.
\<close>

theorem writes_and_reads_in_bounds:
  assumes "INFINITE_MAP W \<longrightarrow> 0 < map_width W \<and> 0 < map_height W"
  shows "list_all (in_frame a) (painted (snd (ray_casting_run W a))) \<and>
         list_all (in_grid W) (sampled (snd (ray_casting_run W a)))"
proof -
  have "list_all (in_grid W) (sampled (snd (ray_casting_run W a)))"
    unfolding ray_casting_run_def by (rule cast_columns_sampled [OF assms]) simp
  with ray_casting_run_frame_inv [of a W] show ?thesis by (simp add: frame_inv_def)
qed


text \<open>
  Claim C4, as amended. \<^verbatim>\<open>height_on_screen\<close> is truncated to an integer. On the first depth
  sample of a column (the march starts with \<^verbatim>\<open>first_contact\<close> false) that neither breaks nor
  divides by zero, the horizon entry becomes the minimum of that truncated value, before it is
  clamped to 0, and \<^verbatim>\<open>screen_height\<close>, and nothing is painted. So after the first sample the
  entry is at most \<^verbatim>\<open>screen_height\<close>, and it is non-negative exactly when the unclamped value
  and \<^verbatim>\<open>screen_height\<close> are.
\<close>

theorem first_sample_horizon:
  assumes n: "n < length (y_buffer st)"
    and sample: "sample_xy W a (sin ra) (cos ra) d = Some xy"
    and nz: "depth_corr a ra d \<noteq> 0"
  shows "y_buffer (snd (march W a n ra [d] (st\<lparr> first_contact := False \<rparr>))) ! n
           = min (height_on_screen W a ra d xy) (screen_height a) \<and>
         y_buffer (snd (march W a n ra [d] (st\<lparr> first_contact := False \<rparr>))) ! n \<le> screen_height a \<and>
         (0 \<le> y_buffer (snd (march W a n ra [d] (st\<lparr> first_contact := False \<rparr>))) ! n
            \<longleftrightarrow> 0 \<le> height_on_screen W a ra d xy \<and> 0 \<le> screen_height a) \<and>
         painted (snd (march W a n ra [d] (st\<lparr> first_contact := False \<rparr>))) = painted st"
proof -
  let ?st0 = "st\<lparr> first_contact := False \<rparr>"
  have "\<not> first_contact ?st0" "n < length (y_buffer ?st0)"
    using n by simp_all
  from depth_step_first [OF nz this, of W xy] sample n show ?thesis
    by auto
qed

lemma straight_view_fields [simp]:
  "player_pos straight_view = (5.5, 5.5)" "player_angle straight_view = 0"
  "player_height straight_view = 40" "player_pitch straight_view = 0"
  "screen_width straight_view = 1" "screen_height straight_view = 450"
  "delta_angle straight_view = 0" "ray_distance straight_view = 2" "h_fov straight_view = 0"
  "scale_height straight_view = 920" "world_scale straight_view = 1"
  by (simp_all add: straight_view_def)

lemma cliff_world_fields [simp]:
  "map_width cliff_world = 10" "map_height cliff_world = 10" "INFINITE_MAP cliff_world = False"
  "base_height_map cliff_world x y = (if 6 \<le> x then 255 else 0)"
  by (simp_all add: cliff_world_def)

lemma wrap_world_dims [simp]:
  "map_width wrap_world = 10" "map_height wrap_world = 10"
  "base_height_map wrap_world x y = 0"
  by (simp_all add: wrap_world_def flat_world_def)

lemma flat_world_heights [simp]: "base_height_map flat_world x y = 0"
  by (simp add: flat_world_def)

lemma straight_view_sample:
  "sample_xy cliff_world straight_view 0 1 1 = Some (6, 5)"
  "sample_xy flat_world straight_view 0 1 1 = Some (6, 5)"
  "sample_xy wrap_world straight_view 0 1 1 = Some (6, 5)"
  by (simp_all add: sample_xy_def py_int_def Let_def)

lemma straight_view_depth_corr [simp]: "depth_corr straight_view 0 1 = 1"
  by (simp add: depth_corr_def)

lemma straight_view_heights:
  "height_on_screen cliff_world straight_view 0 1 (6, 5) = - 197800"
  "height_on_screen flat_world straight_view 0 1 (6, 5) = 36800"
  "height_on_screen wrap_world straight_view 0 1 (6, 5) = 36800"
  by (simp_all add: height_on_screen_def py_int_def Let_def)

lemma cast_columns_single:
  "cast_columns W a [n] ra st =
     march W a n ra [1 .. ray_distance a - 1] (st\<lparr> first_contact := False \<rparr>)"
proof (cases "march W a n ra [1 .. ray_distance a - 1] (st\<lparr> first_contact := False \<rparr>)")
  case (Pair e st')
  then show ?thesis by (cases e) simp_all
qed

lemma straight_view_run:
  "ray_casting_run W straight_view =
     march W straight_view 0 0 [1]
       \<lparr> y_buffer = [450], first_contact = False, painted = [], sampled = [], horizon_log = [] \<rparr>"
proof -
  have cols: "[0 ..< screen_width straight_view] = [0]" by simp
  have depths: "[1 .. ray_distance straight_view - 1] = [1]" by (simp add: upto_1_1)
  show ?thesis
    unfolding ray_casting_run_def cols cast_columns_single depths by simp
qed

text \<open>
  Claim C4 as stated fails where the first sample lies above the eye: the horizon is set from
  the value before the clamp. Facing the cliff from eye height 40, the first sample gives
  \<open>(40 - 255) / 1 * 920 = - 197800\<close>, and the horizon entry after it is \<open>- 197800\<close>, below 0.
\<close>

theorem first_sample_horizon_counterexample:
  "fst (ray_casting_run cliff_world straight_view) = None \<and>
   y_buffer (snd (ray_casting_run cliff_world straight_view)) = [- 197800] \<and>
   horizon_log (snd (ray_casting_run cliff_world straight_view)) = [(0, - 197800)] \<and>
   \<not> (0 \<le> y_buffer (snd (ray_casting_run cliff_world straight_view)) ! 0)"
  by (simp add: straight_view_run straight_view_sample depth_step_first straight_view_heights)

theorem first_sample_horizon_witness:
  "y_buffer (snd (march flat_world straight_view 0 0 [1]
       (\<lparr> y_buffer = [450], first_contact = True, painted = [], sampled = [], horizon_log = [] \<rparr>
        \<lparr> first_contact := False \<rparr>))) ! 0 = 450"
proof -
  have n: "(0::nat) < length (y_buffer \<lparr> y_buffer = [450], first_contact = True, painted = [],
            sampled = [], horizon_log = [] \<rparr>)"
    by simp
  have s: "sample_xy flat_world straight_view (sin 0) (cos 0) 1 = Some (6, 5)"
    by (simp add: straight_view_sample)
  have nz: "depth_corr straight_view 0 1 \<noteq> 0" by simp
  from first_sample_horizon [OF n s nz] show ?thesis
    by (simp add: straight_view_heights)
qed

lemma long_view_fields [simp]:
  "player_pos long_view = (5.5, 5.5)" "player_angle long_view = 0"
  "player_height long_view = 40" "player_pitch long_view = 0"
  "screen_width long_view = 1" "screen_height long_view = 450"
  "delta_angle long_view = 0" "ray_distance long_view = 5" "h_fov long_view = 0"
  "scale_height long_view = 920" "world_scale long_view = 1"
  by (simp_all add: long_view_def)

lemma valley_world_fields [simp]:
  "map_width valley_world = 10" "map_height valley_world = 10" "INFINITE_MAP valley_world = True"
  "base_height_map valley_world x y = (if x = 5 then 0 else 39)"
  "base_color_map valley_world x y = (34, 139, 34)"
  by (simp_all add: valley_world_def)

lemma long_view_samples:
  "sample_xy valley_world long_view 0 1 1 = Some (6, 5)"
  "sample_xy valley_world long_view 0 1 2 = Some (7, 5)"
  "sample_xy valley_world long_view 0 1 3 = Some (8, 5)"
  "sample_xy valley_world long_view 0 1 4 = Some (9, 5)"
  by (simp_all add: sample_xy_def py_int_def)

lemma long_view_depth_corr [simp]: "depth_corr long_view 0 d = real_of_int d"
  by (simp add: depth_corr_def)

lemma long_view_heights:
  "height_on_screen valley_world long_view 0 1 (6, 5) = 920"
  "height_on_screen valley_world long_view 0 2 (7, 5) = 460"
  "height_on_screen valley_world long_view 0 3 (8, 5) = 306"
  "height_on_screen valley_world long_view 0 4 (9, 5) = 230"
  by (simp_all add: height_on_screen_def py_int_def Let_def)

lemma long_view_depths: "[1 .. ray_distance long_view - 1] = [1, 2, 3, 4]"
  by (simp add: upto.simps)

text \<open>
  A render call that paints: from eye height 40 over terrain of height 39, the samples at
  depths 1 to 4 project to rows 920, 460, 306 and 230 of a frame 450 rows high, so the horizon
  goes 450, 450, 306, 230 and rows 306 to 449, then 230 to 305, are painted.
\<close>

lemma long_view_run:
  "ray_casting_run valley_world long_view =
     (None, \<lparr> y_buffer = [230], first_contact = True,
              painted = map (\<lambda>r. (0, r, (34, 139, 34))) [306 .. 449]
                        @ map (\<lambda>r. (0, r, (34, 139, 34))) [230 .. 305],
              sampled = [(6, 5), (7, 5), (8, 5), (9, 5)],
              horizon_log = [(0, 450), (0, 450), (0, 306), (0, 230)] \<rparr>)"
proof -
  have cols: "[0 ..< screen_width long_view] = [0]" by simp
  show ?thesis
    unfolding ray_casting_run_def cols cast_columns_single long_view_depths
    by (simp add: long_view_samples depth_step_first depth_step_later long_view_heights Let_def
         del: upto_rec_numeral)
qed

theorem writes_and_reads_in_bounds_witness:
  "list_all (in_frame long_view) (painted (snd (ray_casting_run valley_world long_view))) \<and>
   list_all (in_grid valley_world) (sampled (snd (ray_casting_run valley_world long_view))) \<and>
   length (painted (snd (ray_casting_run valley_world long_view))) = 220 \<and>
   sampled (snd (ray_casting_run valley_world long_view)) = [(6, 5), (7, 5), (8, 5), (9, 5)]"
proof -
  have "INFINITE_MAP valley_world \<longrightarrow> 0 < map_width valley_world \<and> 0 < map_height valley_world"
    by simp
  from writes_and_reads_in_bounds [OF this, of long_view] show ?thesis
    by (simp add: long_view_run del: upto_rec_numeral)
qed

end
